theory Spec2Isabelle
  imports Main "HOL-Library.Word"
begin

section \<open>The Taml binary writer (tamlBinaryWriter.cc)\<close>

text \<open>
  A shallow embedding of \<^verbatim>\<open>TamlBinaryWriter\<close>: the document writer \<^verbatim>\<open>write\<close> and the
  four mutually recursive encoders \<^verbatim>\<open>writeElement\<close>, \<^verbatim>\<open>writeChildren\<close>,
  \<^verbatim>\<open>writeCustomElements\<close> and \<^verbatim>\<open>writeCustomNode\<close>, with \<^verbatim>\<open>writeAttributes\<close>.

  The write nodes and custom nodes are objects linked by pointers, so they live in an
  explicit store; the encoders follow the pointers and take a bound on the depth of
  their recursion. The stream is passed through every call and returned updated.
\<close>

subsection \<open>Scalars and the calls a stream receives\<close>

type_synonym U32 = "32 word"
type_synonym S32 = "32 word"

text \<open>
  The stream classes are not part of \<^verbatim>\<open>tamlBinaryWriter.cc\<close>. A stream is modelled by the
  sequence of calls of its writing primitives it has received: \<^verbatim>\<open>writeString(s)\<close>,
  \<^verbatim>\<open>writeLongString(maxLen, s)\<close> and the overloads of \<^verbatim>\<open>write\<close> for \<^verbatim>\<open>U32\<close>,
  \<^verbatim>\<open>S32\<close> (the overload an \<^verbatim>\<open>int\<close> literal selects) and \<^verbatim>\<open>bool\<close>. How a
  primitive lays its argument out in bytes (and what \<^verbatim>\<open>writeLongString\<close> does with a
  string longer than its bound) is the stream's business and is left open.
\<close>

datatype StreamOp =
    WriteString string
  | WriteLongString nat string
  | WriteU32 U32
  | WriteS32 S32
  | WriteBool bool

datatype StreamStatus = Ok | IOError

text \<open>
  What has reached a file: the calls written as they are, and the blocks a
  compressing stream has flushed into it.
\<close>

datatype Chunk = Plain StreamOp | Deflated "StreamOp list"

text \<open>
  Modelled from the spec: the raw stream I/O primitives (\<^verbatim>\<open>FileStream\<close>) are external.
  A file stream whose status is \<^verbatim>\<open>Ok\<close> accepts every write; any other status stands for
  a failed sink (disk full, closed), which refuses every write and reports it by
  returning \<^verbatim>\<open>false\<close>.
\<close>

record FileStream =
  fs_status :: StreamStatus
  fs_contents :: "Chunk list"

text \<open>
  Modelled from the spec: the compression adapter (\<^verbatim>\<open>ZipSubWStream\<close>) is external, a
  stream decorator with \<^verbatim>\<open>attachStream\<close> and \<^verbatim>\<open>detachStream\<close>. While attached it takes
  the calls in; detaching finalizes it and flushes the deflated block to the sink.
\<close>

record ZipSubWStream =
  zs_attached :: bool
  zs_pending :: "StreamOp list"

text \<open>A \<^verbatim>\<open>Stream&\<close> is either of the two (virtual dispatch).\<close>

datatype Stream = File FileStream | Zip ZipSubWStream

text \<open>
  Modelled from the spec: the writing primitives of the two external streams. Each
  returns whether the write succeeded, as \<^verbatim>\<open>Stream::write\<close> does. A file stream appends
  what it accepts. A compressing stream keeps what it takes in until \<^verbatim>\<open>detachStream\<close>
  flushes it, as one deflated block, to the file stream it was attached to.
\<close>

definition fs_write :: "Chunk \<Rightarrow> FileStream \<Rightarrow> bool \<times> FileStream" where
  "fs_write c fs =
     (if fs_status fs = Ok then (True, fs\<lparr>fs_contents := fs_contents fs @ [c]\<rparr>)
      else (False, fs))"

definition zs_write :: "StreamOp \<Rightarrow> ZipSubWStream \<Rightarrow> bool \<times> ZipSubWStream" where
  "zs_write x z =
     (if zs_attached z then (True, z\<lparr>zs_pending := zs_pending z @ [x]\<rparr>)
      else (False, z))"

definition stream_write :: "StreamOp \<Rightarrow> Stream \<Rightarrow> bool \<times> Stream" where
  "stream_write x s =
     (case s of
        File fs \<Rightarrow> (let (ok, fs') = fs_write (Plain x) fs in (ok, File fs'))
      | Zip z \<Rightarrow> (let (ok, z') = zs_write x z in (ok, Zip z')))"

definition ZipSubWStream_new :: ZipSubWStream where
  "ZipSubWStream_new = \<lparr>zs_attached = False, zs_pending = []\<rparr>"

definition attachStream :: "ZipSubWStream \<Rightarrow> ZipSubWStream" where
  "attachStream z = z\<lparr>zs_attached := True, zs_pending := []\<rparr>"

definition detachStream :: "ZipSubWStream \<Rightarrow> FileStream \<Rightarrow> ZipSubWStream \<times> FileStream" where
  "detachStream z fs =
     (if zs_attached z
      then (z\<lparr>zs_attached := False, zs_pending := []\<rparr>, snd (fs_write (Deflated (zs_pending z)) fs))
      else (z, fs))"

text \<open>
  The writer calls every primitive as a statement: the \<^verbatim>\<open>bool\<close> it returns is dropped.
\<close>

definition put :: "StreamOp \<Rightarrow> Stream \<Rightarrow> Stream" where
  "put x s = snd (stream_write x s)"

definition puts :: "StreamOp list \<Rightarrow> Stream \<Rightarrow> Stream" where
  "puts xs s = foldl (\<lambda>t x. put x t) s xs"

subsection \<open>The write nodes, in a store\<close>

type_synonym ptr = nat

record FieldValuePair =
  mName :: string
  mpValue :: string

record TamlCustomNodeField =
  getFieldName :: string
  getFieldValue :: string

text \<open>
  \<^verbatim>\<open>TamlWriteNode\<close>. \<^verbatim>\<open>getClassName\<close> is \<^verbatim>\<open>mpSimObject->getClassName()\<close>. A pointer the
  code tests against \<^verbatim>\<open>NULL\<close> is an option; a pointer it dereferences untested is an
  address, and an address that holds no object in the store stands for a null or
  dangling pointer. \<^verbatim>\<open>mCustomNodes\<close> is the vector \<^verbatim>\<open>mCustomNodes.getNodes()\<close>.
\<close>

record TamlWriteNode =
  getClassName :: string
  mpObjectName :: "string option"
  mRefId :: U32
  mRefToNode :: "ptr option"
  mFields :: "FieldValuePair list"
  mChildren :: "ptr list option"
  mCustomNodes :: "ptr list"

record TamlCustomNode =
  mNodeName :: string
  isProxyObject :: bool
  getProxyWriteNode :: ptr
  getChildren :: "ptr list"
  getFields :: "TamlCustomNodeField list"

record Store =
  writeNode :: "ptr \<Rightarrow> TamlWriteNode option"
  customNode :: "ptr \<Rightarrow> TamlCustomNode option"

text \<open>
  The members and macros of the header files the writer reads: \<^verbatim>\<open>mVersionId\<close>,
  \<^verbatim>\<open>TAML_SIGNATURE\<close> and \<^verbatim>\<open>MAX_TAML_NODE_FIELDVALUE_LENGTH\<close>. Their values are not in
  \<^verbatim>\<open>tamlBinaryWriter.cc\<close>, so they are parameters.
\<close>

record TamlBinaryWriter =
  mVersionId :: U32
  TAML_SIGNATURE :: string
  MAX_TAML_NODE_FIELDVALUE_LENGTH :: nat

definition EmptyString :: string where
  "EmptyString = []"

subsection \<open>Ways a call does not return\<close>

text \<open>
  \<^verbatim>\<open>DepthExhausted\<close>: the recursion went deeper than the bound given.
  \<^verbatim>\<open>BadPointer\<close>: a pointer that is dereferenced points to no object.
  \<^verbatim>\<open>AssertFailed\<close>: an assertion stopped the program, with its message.
\<close>

datatype Fault = DepthExhausted | BadPointer | AssertFailed string

text \<open>
  Modelled from the spec: the macro \<^verbatim>\<open>AssertFatal\<close> is not in \<^verbatim>\<open>tamlBinaryWriter.cc\<close>. By the
  spec a violated assertion makes the encoder fail fast (abort): nothing after it runs.
\<close>

definition AssertFatal :: "bool \<Rightarrow> string \<Rightarrow> Fault option" where
  "AssertFatal c msg = (if c then None else Some (AssertFailed msg))"

type_synonym Outcome = "Fault option \<times> Stream"

text \<open>Run \<open>g\<close> after \<open>f\<close> unless \<open>f\<close> did not return.\<close>

definition andThen :: "(Stream \<Rightarrow> Outcome) \<Rightarrow> (Stream \<Rightarrow> Outcome) \<Rightarrow> Stream \<Rightarrow> Outcome" where
  "andThen f g s = (case f s of (None, s') \<Rightarrow> g s' | (Some e, s') \<Rightarrow> (Some e, s'))"

text \<open>The iterator loops: the body on each element in order, from \<^verbatim>\<open>begin()\<close> to \<^verbatim>\<open>end()\<close>.\<close>

fun forEach :: "('a \<Rightarrow> Stream \<Rightarrow> Outcome) \<Rightarrow> 'a list \<Rightarrow> Stream \<Rightarrow> Outcome" where
  "forEach f [] s = (None, s)"
| "forEach f (x # xs) s =
     (case f x s of (None, s') \<Rightarrow> forEach f xs s' | (Some e, s') \<Rightarrow> (Some e, s'))"

subsection \<open>The encoders\<close>

definition writeAttributes :: "TamlWriteNode \<Rightarrow> Stream \<Rightarrow> Outcome" where
  "writeAttributes n s =
     (let fields = mFields n;
          s1 = put (WriteU32 (of_nat (length fields))) s
      in if length fields = 0 then (None, s1)
         else (None,
               foldl (\<lambda>t pFieldValue.
                 put (WriteLongString 4096 (mpValue pFieldValue))
                   (put (WriteString (mName pFieldValue)) t)) s1 fields))"

function (sequential) writeElement :: "TamlBinaryWriter \<Rightarrow> nat \<Rightarrow> Store \<Rightarrow> ptr \<Rightarrow> Stream \<Rightarrow> Outcome"
  and writeChildren :: "TamlBinaryWriter \<Rightarrow> nat \<Rightarrow> Store \<Rightarrow> TamlWriteNode \<Rightarrow> Stream \<Rightarrow> Outcome"
  and writeCustomElements :: "TamlBinaryWriter \<Rightarrow> nat \<Rightarrow> Store \<Rightarrow> TamlWriteNode \<Rightarrow> Stream \<Rightarrow> Outcome"
  and writeCustomNode :: "TamlBinaryWriter \<Rightarrow> nat \<Rightarrow> Store \<Rightarrow> ptr \<Rightarrow> Stream \<Rightarrow> Outcome"
where
  "writeElement w 0 h p s = (Some DepthExhausted, s)"
| "writeElement w (Suc d) h p s =
     (case writeNode h p of
        None \<Rightarrow> (Some BadPointer, s)
      | Some n \<Rightarrow>
          (let s1 = put (WriteString (getClassName n)) s;
               s2 = put (WriteString (case mpObjectName n of Some nm \<Rightarrow> nm | None \<Rightarrow> EmptyString)) s1;
               tamlRefId = mRefId n;
               s3 = put (WriteU32 tamlRefId) s2
           in case mRefToNode n of
                Some t \<Rightarrow>
                  (case writeNode h t of
                     None \<Rightarrow> (Some BadPointer, s3)
                   | Some target \<Rightarrow>
                       (let tamlRefToId = mRefId target
                        in case AssertFatal (tamlRefToId \<noteq> 0) ''Taml: Invalid reference to Id.'' of
                             Some e \<Rightarrow> (Some e, s3)
                           | None \<Rightarrow> (None, put (WriteU32 tamlRefToId) s3)))
              | None \<Rightarrow>
                  (let s4 = put (WriteS32 0) s3
                   in case writeAttributes n s4 of
                        (Some e, s5) \<Rightarrow> (Some e, s5)
                      | (None, s5) \<Rightarrow>
                          (case writeChildren w d h n s5 of
                             (Some e, s6) \<Rightarrow> (Some e, s6)
                           | (None, s6) \<Rightarrow> writeCustomElements w d h n s6))))"
| "writeChildren w d h n s =
     (case mChildren n of
        None \<Rightarrow> (None, put (WriteU32 0) s)
      | Some pChildren \<Rightarrow>
          forEach (\<lambda>c t. writeElement w d h c t) pChildren
            (put (WriteU32 (of_nat (length pChildren))) s))"
| "writeCustomElements w d h n s =
     (let nodes = mCustomNodes n;
          s1 = put (WriteU32 (of_nat (length nodes))) s
      in if length nodes = 0 then (None, s1)
         else forEach (\<lambda>c t. writeCustomNode w d h c t) nodes s1)"
| "writeCustomNode w 0 h q s = (Some DepthExhausted, s)"
| "writeCustomNode w (Suc d) h q s =
     (case customNode h q of
        None \<Rightarrow> (Some BadPointer, s)
      | Some pCustomNode \<Rightarrow>
          (let s1 = put (WriteString (mNodeName pCustomNode)) s
           in if isProxyObject pCustomNode
              then writeElement w d h (getProxyWriteNode pCustomNode) (put (WriteBool True) s1)
              else
                (let s2 = put (WriteBool False) s1;
                     nodeChildren = getChildren pCustomNode;
                     customNodeCount = (of_nat (length nodeChildren) :: U32);
                     s3 = put (WriteU32 customNodeCount) s2
                 in case (if customNodeCount > 0
                          then forEach (\<lambda>c t. writeCustomNode w d h c t) nodeChildren s3
                          else (None, s3)) of
                      (Some e, s4) \<Rightarrow> (Some e, s4)
                    | (None, s4) \<Rightarrow>
                        (let nodeFields = getFields pCustomNode;
                             nodeFieldCount = (of_nat (length nodeFields) :: U32);
                             s5 = put (WriteU32 nodeFieldCount) s4
                         in (None,
                             if nodeFieldCount > 0
                             then foldl (\<lambda>t pNodeField.
                                    put (WriteLongString (MAX_TAML_NODE_FIELDVALUE_LENGTH w)
                                           (getFieldValue pNodeField))
                                      (put (WriteString (getFieldName pNodeField)) t)) s5 nodeFields
                             else s5)))))"
  by pat_completeness auto

text \<open>
  Every call of \<^verbatim>\<open>writeElement\<close> and of \<^verbatim>\<open>writeCustomNode\<close> uses up one level of the depth
  bound; \<^verbatim>\<open>writeChildren\<close> and \<^verbatim>\<open>writeCustomElements\<close> pass theirs on.
\<close>

termination
  by (relation "measure (\<lambda>x. case x of
          Inl (Inl (w, d, h, p, s)) \<Rightarrow> 2 * d
        | Inl (Inr (w, d, h, n, s)) \<Rightarrow> 2 * d + 1
        | Inr (Inl (w, d, h, n, s)) \<Rightarrow> 2 * d + 1
        | Inr (Inr (w, d, h, q, s)) \<Rightarrow> 2 * d)") simp_all

text \<open>
  \<^verbatim>\<open>TamlBinaryWriter::write\<close>. The result is the \<^verbatim>\<open>bool\<close> returned, or the fault that
  kept it from returning, with the file stream as the call left it.
\<close>

definition unFile :: "FileStream \<Rightarrow> Stream \<Rightarrow> FileStream" where
  "unFile dflt s = (case s of File fs \<Rightarrow> fs | Zip z \<Rightarrow> dflt)"

definition unZip :: "ZipSubWStream \<Rightarrow> Stream \<Rightarrow> ZipSubWStream" where
  "unZip dflt s = (case s of Zip z \<Rightarrow> z | File fs \<Rightarrow> dflt)"

definition TamlBinaryWriter_write ::
  "TamlBinaryWriter \<Rightarrow> nat \<Rightarrow> Store \<Rightarrow> FileStream \<Rightarrow> ptr \<Rightarrow> bool \<Rightarrow> (Fault + bool) \<times> FileStream" where
  "TamlBinaryWriter_write w d h stream pTamlWriteNode compressed =
     (let fs1 = snd (fs_write (Plain (WriteString (TAML_SIGNATURE w))) stream);
          fs2 = snd (fs_write (Plain (WriteU32 (mVersionId w))) fs1);
          fs3 = snd (fs_write (Plain (WriteBool compressed)) fs2)
      in if compressed
         then
           (let zipStream = attachStream ZipSubWStream_new
            in case writeElement w d h pTamlWriteNode (Zip zipStream) of
                 (Some e, s') \<Rightarrow> (Inl e, fs3)
               | (None, s') \<Rightarrow> (Inr True, snd (detachStream (unZip zipStream s') fs3)))
         else
           (case writeElement w d h pTamlWriteNode (File fs3) of
              (Some e, s') \<Rightarrow> (Inl e, unFile fs3 s')
            | (None, s') \<Rightarrow> (Inr True, unFile fs3 s')))"

subsection \<open>What a call emits\<close>

text \<open>
  A stream that is attached and empty takes every call in: running an encoder on it
  gives the calls the encoder emits (\<open>emitted\<close>) and how it ends (\<open>returned\<close>: \<open>None\<close> is a
  normal return).
\<close>

definition recorder :: Stream where
  "recorder = Zip \<lparr>zs_attached = True, zs_pending = []\<rparr>"

definition emitted :: "(Stream \<Rightarrow> Outcome) \<Rightarrow> StreamOp list" where
  "emitted f = (case snd (f recorder) of Zip z \<Rightarrow> zs_pending z | File fs \<Rightarrow> [])"

definition returned :: "(Stream \<Rightarrow> Outcome) \<Rightarrow> Fault option" where
  "returned f = fst (f recorder)"

text \<open>
  An encoder is uniform when what it does to a stream is to issue one fixed sequence of
  calls, whatever the stream.
\<close>

definition uniform :: "(Stream \<Rightarrow> Outcome) \<Rightarrow> bool" where
  "uniform f \<longleftrightarrow> (\<exists>r xs. \<forall>s. f s = (r, puts xs s))"

subsection \<open>The wire grammar of the spec, for the flat parts\<close>

text \<open>
  The element header: \<^verbatim>\<open>TypeName:str InstanceName:str Id:u32\<close>, where an absent instance
  name is the empty string.
\<close>

definition Header :: "TamlWriteNode \<Rightarrow> StreamOp list" where
  "Header n =
     [WriteString (getClassName n),
      WriteString (case mpObjectName n of Some nm \<Rightarrow> nm | None \<Rightarrow> []),
      WriteU32 (mRefId n)]"

text \<open>\<^verbatim>\<open>Attributes := Count:u32 (Name:str Value:str<=4096)*Count\<close>.\<close>

definition Attributes :: "TamlWriteNode \<Rightarrow> StreamOp list" where
  "Attributes n =
     WriteU32 (of_nat (length (mFields n))) #
     concat (map (\<lambda>f. [WriteString (mName f), WriteLongString 4096 (mpValue f)]) (mFields n))"

text \<open>\<^verbatim>\<open>FieldCount:u32 (Name:str Value:str<=MAXLEN)*FieldCount\<close> of a custom node.\<close>

definition CustomFields :: "nat \<Rightarrow> TamlCustomNode \<Rightarrow> StreamOp list" where
  "CustomFields maxLen c =
     WriteU32 (of_nat (length (getFields c))) #
     concat (map (\<lambda>f. [WriteString (getFieldName f), WriteLongString maxLen (getFieldValue f)])
               (getFields c))"

subsection \<open>Conditions on the store\<close>

text \<open>A vector holds fewer than \<open>2^32\<close> elements: its size fits the \<^verbatim>\<open>U32\<close> it is cast to.\<close>

definition fitsU32 :: "'a list \<Rightarrow> bool" where
  "fitsU32 xs \<longleftrightarrow> length xs < 2 ^ 32"

text \<open>
  The assigned-id-before-reference invariant: the target of every reference has a
  nonzero id.
\<close>

definition refTargetsAssigned :: "Store \<Rightarrow> bool" where
  "refTargetsAssigned h \<longleftrightarrow>
     (\<forall>p n t target. writeNode h p = Some n \<and> mRefToNode n = Some t \<and> writeNode h t = Some target
        \<longrightarrow> mRefId target \<noteq> 0)"

text \<open>
  A well-founded ownership structure: every write node and custom node has a height
  (\<open>he\<close>, \<open>hc\<close>), and the children and custom nodes of a node that is not an alias, the
  children of a custom node that is not a proxy, and the node a proxy wraps, are
  strictly lower. Nothing is asked of the target of a reference.
\<close>

definition childrenOf :: "TamlWriteNode \<Rightarrow> ptr list" where
  "childrenOf n = (case mChildren n of None \<Rightarrow> [] | Some pChildren \<Rightarrow> pChildren)"

definition descends :: "Store \<Rightarrow> (ptr \<Rightarrow> nat) \<Rightarrow> (ptr \<Rightarrow> nat) \<Rightarrow> bool" where
  "descends h he hc \<longleftrightarrow>
     (\<forall>p n. writeNode h p = Some n \<and> mRefToNode n = None \<longrightarrow>
        (\<forall>c \<in> set (childrenOf n). he c < he p) \<and> (\<forall>q \<in> set (mCustomNodes n). hc q < he p)) \<and>
     (\<forall>q c. customNode h q = Some c \<longrightarrow>
        (if isProxyObject c then he (getProxyWriteNode c) < hc q
         else (\<forall>k \<in> set (getChildren c). hc k < hc q)))"

text \<open>
  No pointer that the encoders follow is null or dangling: a reference target, a child, a
  custom node, the node a proxy wraps.
\<close>

definition closed :: "Store \<Rightarrow> bool" where
  "closed h \<longleftrightarrow>
     (\<forall>p n t. writeNode h p = Some n \<and> mRefToNode n = Some t \<longrightarrow> writeNode h t \<noteq> None) \<and>
     (\<forall>p n c. writeNode h p = Some n \<and> mRefToNode n = None \<and> c \<in> set (childrenOf n) \<longrightarrow>
        writeNode h c \<noteq> None) \<and>
     (\<forall>p n q. writeNode h p = Some n \<and> mRefToNode n = None \<and> q \<in> set (mCustomNodes n) \<longrightarrow>
        customNode h q \<noteq> None) \<and>
     (\<forall>q c. customNode h q = Some c \<and> isProxyObject c \<longrightarrow>
        writeNode h (getProxyWriteNode c) \<noteq> None) \<and>
     (\<forall>q c k. customNode h q = Some c \<and> \<not> isProxyObject c \<and> k \<in> set (getChildren c) \<longrightarrow>
        customNode h k \<noteq> None)"

text \<open>
  The same as a relation: \<open>(y, x) \<in> owns h\<close> when the encoding of the object \<open>x\<close> calls the
  encoder of \<open>y\<close>. A node that is an alias owns nothing.
\<close>

datatype Obj = WriteNodeAt ptr | CustomNodeAt ptr

inductive_set owns :: "Store \<Rightarrow> (Obj \<times> Obj) set" for h :: Store where
  child: "writeNode h p = Some n \<Longrightarrow> mRefToNode n = None \<Longrightarrow> c \<in> set (childrenOf n) \<Longrightarrow>
          (WriteNodeAt c, WriteNodeAt p) \<in> owns h"
| custom: "writeNode h p = Some n \<Longrightarrow> mRefToNode n = None \<Longrightarrow> q \<in> set (mCustomNodes n) \<Longrightarrow>
          (CustomNodeAt q, WriteNodeAt p) \<in> owns h"
| proxy: "customNode h q = Some c \<Longrightarrow> isProxyObject c \<Longrightarrow>
          (WriteNodeAt (getProxyWriteNode c), CustomNodeAt q) \<in> owns h"
| custom_child: "customNode h q = Some c \<Longrightarrow> \<not> isProxyObject c \<Longrightarrow> k \<in> set (getChildren c) \<Longrightarrow>
          (CustomNodeAt k, CustomNodeAt q) \<in> owns h"

subsection \<open>A small scene, for the instances\<close>

definition ex_writer :: TamlBinaryWriter where
  "ex_writer = \<lparr>mVersionId = 2, TAML_SIGNATURE = ''Taml'', MAX_TAML_NODE_FIELDVALUE_LENGTH = 8192\<rparr>"

definition ex_scene :: TamlWriteNode where
  "ex_scene = \<lparr>getClassName = ''Scene'', mpObjectName = Some ''main'', mRefId = 1,
     mRefToNode = None, mFields = [\<lparr>mName = ''Gravity'', mpValue = ''0 -9.8''\<rparr>],
     mChildren = Some [2, 3], mCustomNodes = [10]\<rparr>"

definition ex_sprite :: TamlWriteNode where
  "ex_sprite = \<lparr>getClassName = ''Sprite'', mpObjectName = None, mRefId = 7,
     mRefToNode = None, mFields = [], mChildren = None, mCustomNodes = []\<rparr>"

definition ex_alias :: TamlWriteNode where
  "ex_alias = \<lparr>getClassName = ''Sprite'', mpObjectName = None, mRefId = 0,
     mRefToNode = Some 2, mFields = [\<lparr>mName = ''Angle'', mpValue = ''90''\<rparr>],
     mChildren = Some [1], mCustomNodes = [10]\<rparr>"

definition ex_image :: TamlWriteNode where
  "ex_image = \<lparr>getClassName = ''ImageAsset'', mpObjectName = Some ''tiles'', mRefId = 0,
     mRefToNode = None, mFields = [], mChildren = Some [], mCustomNodes = []\<rparr>"

definition ex_layers :: TamlCustomNode where
  "ex_layers = \<lparr>mNodeName = ''Layers'', isProxyObject = False, getProxyWriteNode = 0,
     getChildren = [11], getFields = [\<lparr>getFieldName = ''Count'', getFieldValue = ''1''\<rparr>]\<rparr>"

definition ex_proxy :: TamlCustomNode where
  "ex_proxy = \<lparr>mNodeName = ''Image'', isProxyObject = True, getProxyWriteNode = 4,
     getChildren = [], getFields = []\<rparr>"

definition ex_store :: Store where
  "ex_store = \<lparr>writeNode = map_of [(1, ex_scene), (2, ex_sprite), (3, ex_alias), (4, ex_image)],
     customNode = map_of [(10, ex_layers), (11, ex_proxy)]\<rparr>"

text \<open>A store that breaks the invariant: node 2 refers to node 1, whose id is still 0.\<close>

definition ex_unassigned :: Store where
  "ex_unassigned = \<lparr>writeNode = map_of [(1, ex_image), (2, ex_alias\<lparr>mRefToNode := Some 1\<rparr>)],
     customNode = map_of []\<rparr>"

definition ex_file :: FileStream where
  "ex_file = \<lparr>fs_status = Ok, fs_contents = []\<rparr>"

definition ex_failed_file :: FileStream where
  "ex_failed_file = \<lparr>fs_status = IOError, fs_contents = []\<rparr>"

definition ex_he :: "ptr \<Rightarrow> nat" where
  "ex_he p = (if p = 1 then 3 else 0)"

definition ex_hc :: "ptr \<Rightarrow> nat" where
  "ex_hc q = (if q = 10 then 2 else 1)"

section \<open>Properties\<close>

subsection \<open>Sequences of calls\<close>

lemma puts_Nil: "puts [] s = s"
  by (simp add: puts_def)

lemma puts_Cons: "puts (x # xs) s = puts xs (put x s)"
  by (simp add: puts_def)

lemma puts_append: "puts (xs @ ys) s = puts ys (puts xs s)"
  by (simp add: puts_def)

lemma put_File_Ok:
  "fs_status fs = Ok \<Longrightarrow> put x (File fs) = File (fs\<lparr>fs_contents := fs_contents fs @ [Plain x]\<rparr>)"
  by (simp add: put_def stream_write_def fs_write_def)

lemma puts_File_Ok:
  "fs_status fs = Ok \<Longrightarrow> puts xs (File fs) = File (fs\<lparr>fs_contents := fs_contents fs @ map Plain xs\<rparr>)"
  by (induction xs arbitrary: fs) (simp_all add: puts_Nil puts_Cons put_File_Ok)

lemma put_Zip_attached:
  "zs_attached z \<Longrightarrow> put x (Zip z) = Zip (z\<lparr>zs_pending := zs_pending z @ [x]\<rparr>)"
  by (simp add: put_def stream_write_def zs_write_def)

lemma puts_Zip_attached:
  "zs_attached z \<Longrightarrow> puts xs (Zip z) = Zip (z\<lparr>zs_pending := zs_pending z @ xs\<rparr>)"
  by (induction xs arbitrary: z) (simp_all add: puts_Nil puts_Cons put_Zip_attached)

lemma puts_recorder: "puts xs recorder = Zip \<lparr>zs_attached = True, zs_pending = xs\<rparr>"
  by (simp add: recorder_def puts_Zip_attached)

lemma foldl_put_pairs:
  "foldl (\<lambda>t f. put (b f) (put (a f) t)) s fs = puts (concat (map (\<lambda>f. [a f, b f]) fs)) s"
  by (induction fs arbitrary: s) (simp_all add: puts_Nil puts_Cons)

lemma writeAttributes_puts: "writeAttributes n s = (None, puts (Attributes n) s)"
  by (simp add: writeAttributes_def Attributes_def Let_def foldl_put_pairs puts_Cons puts_Nil)

subsection \<open>Uniform encoders\<close>

lemma uniformI: "(\<And>s. f s = (r, puts xs s)) \<Longrightarrow> uniform f"
  unfolding uniform_def by blast

lemma uniform_run:
  assumes "uniform f"
  shows "f s = (returned f, puts (emitted f) s)"
proof -
  from assms obtain r xs where f: "\<And>t. f t = (r, puts xs t)"
    unfolding uniform_def by blast
  have "returned f = r" "emitted f = xs"
    by (simp_all add: returned_def emitted_def f puts_recorder)
  with f show ?thesis by simp
qed

lemma uniform_after_puts:
  assumes "uniform f"
  shows "uniform (\<lambda>s. f (puts xs s))"
proof -
  have "f (puts xs s) = (returned f, puts (xs @ emitted f) s)" for s
    by (simp add: uniform_run [OF assms, of "puts xs s"] puts_append)
  then show ?thesis by (rule uniformI)
qed

lemma uniform_andThen:
  assumes "uniform f" and "uniform g"
  shows "uniform (andThen f g)"
proof (cases "returned f")
  case None
  have "andThen f g s = (returned g, puts (emitted f @ emitted g) s)" for s
    by (simp add: andThen_def uniform_run [OF assms(1), of s] None
        uniform_run [OF assms(2), of "puts (emitted f) s"] puts_append)
  then show ?thesis by (rule uniformI)
next
  case (Some e)
  have "andThen f g s = (Some e, puts (emitted f) s)" for s
    by (simp add: andThen_def uniform_run [OF assms(1), of s] Some)
  then show ?thesis by (rule uniformI)
qed

lemma forEach_Cons_andThen: "forEach f (x # xs) = andThen (f x) (forEach f xs)"
  by (rule ext) (simp add: andThen_def)

lemma uniform_return: "uniform (\<lambda>s. (r, puts xs s))"
  by (rule uniformI) simp

lemma uniform_forEach:
  assumes "\<And>x. x \<in> set xs \<Longrightarrow> uniform (f x)"
  shows "uniform (forEach f xs)"
  using assms
proof (induction xs)
  case Nil
  have "forEach f [] s = (None, puts [] s)" for s by (simp add: puts_Nil)
  then show ?case by (rule uniformI)
next
  case (Cons x xs)
  then show ?case by (simp add: forEach_Cons_andThen uniform_andThen)
qed


subsection \<open>The encoders, clause by clause\<close>

lemma writeElement_BadPointer:
  "writeNode h p = None \<Longrightarrow> writeElement w (Suc d) h p s = (Some BadPointer, s)"
  by simp

lemma writeElement_alias_BadPointer:
  "writeNode h p = Some n \<Longrightarrow> mRefToNode n = Some t \<Longrightarrow> writeNode h t = None \<Longrightarrow>
   writeElement w (Suc d) h p s = (Some BadPointer, puts (Header n) s)"
  by (simp add: Header_def EmptyString_def puts_Cons puts_Nil Let_def split: option.splits)

lemma writeElement_alias:
  "writeNode h p = Some n \<Longrightarrow> mRefToNode n = Some t \<Longrightarrow> writeNode h t = Some target \<Longrightarrow>
   writeElement w (Suc d) h p s =
     (AssertFatal (mRefId target \<noteq> 0) ''Taml: Invalid reference to Id.'',
      puts (Header n @ (if mRefId target \<noteq> 0 then [WriteU32 (mRefId target)] else [])) s)"
  by (simp add: Header_def EmptyString_def puts_Cons puts_Nil Let_def AssertFatal_def
      split: option.splits)

lemma writeElement_body:
  "writeNode h p = Some n \<Longrightarrow> mRefToNode n = None \<Longrightarrow>
   writeElement w (Suc d) h p s =
     andThen (writeChildren w d h n) (writeCustomElements w d h n)
       (puts (Header n @ [WriteS32 0] @ Attributes n) s)"
  by (simp add: Header_def EmptyString_def puts_Cons puts_Nil Let_def andThen_def
      writeAttributes_puts puts_append split: prod.splits option.splits)

lemma writeChildren_forEach:
  "writeChildren w d h n s =
     forEach (writeElement w d h) (childrenOf n)
       (puts [WriteU32 (of_nat (length (childrenOf n)))] s)"
  by (simp add: childrenOf_def puts_Cons puts_Nil split: option.splits)

lemma writeCustomElements_forEach:
  "writeCustomElements w d h n s =
     forEach (writeCustomNode w d h) (mCustomNodes n)
       (puts [WriteU32 (of_nat (length (mCustomNodes n)))] s)"
  by (simp add: puts_Cons puts_Nil Let_def)

lemma writeCustomNode_BadPointer:
  "customNode h q = None \<Longrightarrow> writeCustomNode w (Suc d) h q s = (Some BadPointer, s)"
  by simp

lemma writeCustomNode_proxy:
  "customNode h q = Some c \<Longrightarrow> isProxyObject c \<Longrightarrow>
   writeCustomNode w (Suc d) h q s =
     writeElement w d h (getProxyWriteNode c) (puts [WriteString (mNodeName c), WriteBool True] s)"
  by (simp add: puts_Cons puts_Nil Let_def)

lemma writeCustomNode_plain:
  "customNode h q = Some c \<Longrightarrow> \<not> isProxyObject c \<Longrightarrow>
   writeCustomNode w (Suc d) h q s =
     andThen
       (forEach (writeCustomNode w d h)
          (if (of_nat (length (getChildren c)) :: U32) > 0 then getChildren c else []))
       (\<lambda>t. (None, puts (if (of_nat (length (getFields c)) :: U32) > 0
                          then CustomFields (MAX_TAML_NODE_FIELDVALUE_LENGTH w) c
                          else [WriteU32 0]) t))
       (puts [WriteString (mNodeName c), WriteBool False,
              WriteU32 (of_nat (length (getChildren c)))] s)"
  by (simp add: puts_Cons puts_Nil Let_def andThen_def CustomFields_def foldl_put_pairs
      word_greater_zero_iff split: prod.splits option.splits)


subsection \<open>Every encoder is uniform\<close>

lemma uniform_writeChildren:
  assumes "\<And>p. uniform (writeElement w d h p)"
  shows "uniform (writeChildren w d h n)"
proof -
  have "uniform (\<lambda>s. forEach (writeElement w d h) (childrenOf n)
           (puts [WriteU32 (of_nat (length (childrenOf n)))] s))"
    by (rule uniform_after_puts, rule uniform_forEach, rule assms)
  then show ?thesis by (simp only: writeChildren_forEach [abs_def])
qed

lemma uniform_writeCustomElements:
  assumes "\<And>q. uniform (writeCustomNode w d h q)"
  shows "uniform (writeCustomElements w d h n)"
proof -
  have "uniform (\<lambda>s. forEach (writeCustomNode w d h) (mCustomNodes n)
           (puts [WriteU32 (of_nat (length (mCustomNodes n)))] s))"
    by (rule uniform_after_puts, rule uniform_forEach, rule assms)
  then show ?thesis by (simp only: writeCustomElements_forEach [abs_def])
qed

lemma uniform_writeElement_Suc:
  assumes e: "\<And>p. uniform (writeElement w d h p)"
    and c: "\<And>q. uniform (writeCustomNode w d h q)"
  shows "uniform (writeElement w (Suc d) h p)"
proof (cases "writeNode h p")
  case None
  have "writeElement w (Suc d) h p s = (Some BadPointer, puts [] s)" for s
    by (simp add: None puts_Nil)
  then show ?thesis by (rule uniformI)
next
  case (Some n)
  show ?thesis
  proof (cases "mRefToNode n")
    case None
    have "uniform (\<lambda>s. andThen (writeChildren w d h n) (writeCustomElements w d h n)
             (puts (Header n @ [WriteS32 0] @ Attributes n) s))"
      by (intro uniform_after_puts uniform_andThen uniform_writeChildren
          uniform_writeCustomElements e c)
    then show ?thesis by (simp only: writeElement_body [OF Some None, abs_def])
  next
    case t: (Some t)
    show ?thesis
    proof (cases "writeNode h t")
      case None
      show ?thesis
        by (rule uniformI, rule writeElement_alias_BadPointer [OF Some t None])
    next
      case target: (Some target)
      show ?thesis
        by (rule uniformI, rule writeElement_alias [OF Some t target])
    qed
  qed
qed

lemma uniform_writeCustomNode_Suc:
  assumes e: "\<And>p. uniform (writeElement w d h p)"
    and c: "\<And>q. uniform (writeCustomNode w d h q)"
  shows "uniform (writeCustomNode w (Suc d) h q)"
proof (cases "customNode h q")
  case None
  have "writeCustomNode w (Suc d) h q s = (Some BadPointer, puts [] s)" for s
    by (simp add: None puts_Nil)
  then show ?thesis by (rule uniformI)
next
  case (Some cn)
  show ?thesis
  proof (cases "isProxyObject cn")
    case True
    have "uniform (\<lambda>s. writeElement w d h (getProxyWriteNode cn)
             (puts [WriteString (mNodeName cn), WriteBool True] s))"
      by (intro uniform_after_puts e)
    then show ?thesis by (simp only: writeCustomNode_proxy [OF Some True, abs_def])
  next
    case False
    have "uniform (\<lambda>s. andThen
       (forEach (writeCustomNode w d h)
          (if (of_nat (length (getChildren cn)) :: U32) > 0 then getChildren cn else []))
       (\<lambda>t. (None, puts (if (of_nat (length (getFields cn)) :: U32) > 0
                          then CustomFields (MAX_TAML_NODE_FIELDVALUE_LENGTH w) cn
                          else [WriteU32 0]) t))
       (puts [WriteString (mNodeName cn), WriteBool False,
              WriteU32 (of_nat (length (getChildren cn)))] s))"
      by (intro uniform_after_puts uniform_andThen uniform_forEach uniform_return c)
    then show ?thesis by (simp only: writeCustomNode_plain [OF Some False, abs_def])
  qed
qed

lemma uniform_encoders:
  "(\<forall>p. uniform (writeElement w d h p)) \<and> (\<forall>q. uniform (writeCustomNode w d h q))"
proof (induction d)
  case 0
  have "writeElement w 0 h p s = (Some DepthExhausted, puts [] s)" for p s
    by (simp add: puts_Nil)
  moreover have "writeCustomNode w 0 h q s = (Some DepthExhausted, puts [] s)" for q s
    by (simp add: puts_Nil)
  ultimately show ?case by (blast intro: uniformI)
next
  case (Suc d)
  then show ?case
    by (blast intro: uniform_writeElement_Suc uniform_writeCustomNode_Suc)
qed

lemma uniform_writeElement: "uniform (writeElement w d h p)"
  using uniform_encoders by blast

lemma uniform_writeCustomNode: "uniform (writeCustomNode w d h q)"
  using uniform_encoders by blast



subsection \<open>What each encoder emits, on any stream\<close>

declare writeElement.simps [simp del] writeChildren.simps [simp del]
  writeCustomElements.simps [simp del] writeCustomNode.simps [simp del]

lemma run_writeElement:
  "writeElement w d h p s =
     (returned (writeElement w d h p), puts (emitted (writeElement w d h p)) s)"
  by (rule uniform_run [OF uniform_writeElement])

lemma run_writeCustomNode:
  "writeCustomNode w d h q s =
     (returned (writeCustomNode w d h q), puts (emitted (writeCustomNode w d h q)) s)"
  by (rule uniform_run [OF uniform_writeCustomNode])

lemma run_writeChildren:
  "writeChildren w d h n s =
     (returned (writeChildren w d h n), puts (emitted (writeChildren w d h n)) s)"
  by (rule uniform_run [OF uniform_writeChildren [OF uniform_writeElement]])

lemma run_writeCustomElements:
  "writeCustomElements w d h n s =
     (returned (writeCustomElements w d h n), puts (emitted (writeCustomElements w d h n)) s)"
  by (rule uniform_run [OF uniform_writeCustomElements [OF uniform_writeCustomNode]])

lemma forEach_all_return:
  assumes "\<And>x. x \<in> set xs \<Longrightarrow> uniform (f x)"
    and "\<And>x. x \<in> set xs \<Longrightarrow> returned (f x) = None"
  shows "forEach f xs s = (None, puts (concat (map (\<lambda>x. emitted (f x)) xs)) s)"
  using assms
proof (induction xs arbitrary: s)
  case Nil
  show ?case by (simp add: puts_Nil)
next
  case (Cons x xs)
  have x: "f x s = (None, puts (emitted (f x)) s)"
    using uniform_run [of "f x" s] Cons.prems by simp
  have "forEach f xs (puts (emitted (f x)) s) =
      (None, puts (concat (map (\<lambda>x. emitted (f x)) xs)) (puts (emitted (f x)) s))"
    by (rule Cons.IH) (simp_all add: Cons.prems)
  with x show ?case by (simp add: puts_append)
qed

lemma puts_puts: "puts ys (puts xs s) = puts (xs @ ys) s"
  by (simp add: puts_append)

lemma andThen_run:
  assumes "uniform f" and "uniform g"
  shows "andThen f g s =
     (case returned f of
        Some e \<Rightarrow> (Some e, puts (emitted f) s)
      | None \<Rightarrow> (returned g, puts (emitted f @ emitted g) s))"
  by (simp add: andThen_def uniform_run [OF assms(1), of s]
      uniform_run [OF assms(2), of "puts (emitted f) s"] puts_append split: option.splits)

subsection \<open>Evaluating the small scene\<close>

lemmas ex_defs = ex_writer_def ex_scene_def ex_sprite_def ex_alias_def ex_image_def
  ex_layers_def ex_proxy_def ex_store_def ex_unassigned_def ex_file_def ex_failed_file_def

lemmas run_defs = writeElement.simps writeChildren.simps writeCustomElements.simps
  writeCustomNode.simps writeAttributes_def put_def stream_write_def fs_write_def zs_write_def
  Let_def AssertFatal_def EmptyString_def returned_def emitted_def recorder_def puts_def

section \<open>The claims\<close>

lemma returned_writeAttributes: "returned (writeAttributes n) = None"
  by (simp add: returned_def writeAttributes_puts)

lemma emitted_writeAttributes: "emitted (writeAttributes n) = Attributes n"
  by (simp add: emitted_def writeAttributes_puts puts_recorder)

text \<open>
  C5. For every node, \<^verbatim>\<open>writeAttributes\<close> issues the number of fields as a \<^verbatim>\<open>U32\<close>, then for
  each field in array order \<^verbatim>\<open>writeString\<close> of its name and \<^verbatim>\<open>writeLongString\<close> of its
  value with the bound 4096, and returns; with no field it issues the count 0 alone.
\<close>

theorem writeAttributes_layout:
  "writeAttributes n s =
     (None, puts (WriteU32 (of_nat (length (mFields n))) #
                  concat (map (\<lambda>f. [WriteString (mName f), WriteLongString 4096 (mpValue f)])
                            (mFields n))) s)
   \<and> (mFields n = [] \<longrightarrow> writeAttributes n s = (None, puts [WriteU32 0] s))"
  by (simp add: writeAttributes_puts Attributes_def)

theorem writeAttributes_layout_witness:
  "mFields ex_sprite = [] \<and>
   writeAttributes ex_sprite (File ex_file) =
     (None, File \<lparr>fs_status = Ok, fs_contents = [Plain (WriteU32 0)]\<rparr>) \<and>
   writeAttributes ex_scene (File ex_file) =
     (None, File \<lparr>fs_status = Ok, fs_contents =
        [Plain (WriteU32 1), Plain (WriteString ''Gravity''),
         Plain (WriteLongString 4096 ''0 -9.8'')]\<rparr>)"
  using writeAttributes_layout [of ex_sprite "File ex_file"]
    writeAttributes_layout [of ex_scene "File ex_file"]
  by (simp add: ex_sprite_def ex_scene_def ex_file_def puts_File_Ok)

text \<open>
  C1. For a node whose \<^verbatim>\<open>mRefToNode\<close> is set (and whose target has its nonzero id),
  \<^verbatim>\<open>writeElement\<close> issues the class name, the object name or the empty string, the node's
  id and the target's id, and returns: four calls, none for attributes, children or
  custom nodes, whatever the node holds of them.
\<close>

theorem writeElement_reference:
  assumes "writeNode h p = Some n" and "mRefToNode n = Some t"
    and "writeNode h t = Some target" and "mRefId target \<noteq> 0"
  shows "writeElement w (Suc d) h p s =
     (None, puts [WriteString (getClassName n),
                  WriteString (case mpObjectName n of Some nm \<Rightarrow> nm | None \<Rightarrow> []),
                  WriteU32 (mRefId n),
                  WriteU32 (mRefId target)] s)"
  using writeElement_alias [OF assms(1-3), of w d s] assms(4)
  by (simp add: AssertFatal_def Header_def)

theorem writeElement_reference_witness:
  "writeNode ex_store 3 = Some ex_alias \<and> mRefToNode ex_alias = Some 2 \<and>
   writeNode ex_store 2 = Some ex_sprite \<and> mRefId ex_sprite \<noteq> 0 \<and>
   writeElement ex_writer (Suc 0) ex_store 3 (File ex_file) =
     (None, File \<lparr>fs_status = Ok, fs_contents =
        [Plain (WriteString ''Sprite''), Plain (WriteString []), Plain (WriteU32 0),
         Plain (WriteU32 7)]\<rparr>)"
proof -
  have 1: "writeNode ex_store 3 = Some ex_alias" by (simp add: ex_store_def)
  have 2: "mRefToNode ex_alias = Some 2" by (simp add: ex_alias_def)
  have 3: "writeNode ex_store 2 = Some ex_sprite" by (simp add: ex_store_def)
  have 4: "mRefId ex_sprite \<noteq> 0" by (simp add: ex_sprite_def)
  show ?thesis
    using writeElement_reference [OF 1 2 3 4, of ex_writer 0 "File ex_file"] 1 2 3 4
    by (simp add: ex_alias_def ex_sprite_def ex_file_def puts_File_Ok)
qed


text \<open>
  C2. For a node whose \<^verbatim>\<open>mRefToNode\<close> is not set, \<^verbatim>\<open>writeElement\<close> issues the header and
  the node's id, then the literal 0, and then exactly what \<^verbatim>\<open>writeAttributes\<close>,
  \<^verbatim>\<open>writeChildren\<close> and \<^verbatim>\<open>writeCustomElements\<close> emit, in that order (the custom nodes only
  when the children encoder returned).
\<close>

theorem writeElement_body_order:
  assumes "writeNode h p = Some n" and "mRefToNode n = None"
  shows "writeElement w (Suc d) h p s =
     (case returned (writeChildren w d h n) of
        Some e \<Rightarrow>
          (Some e,
           puts ([WriteString (getClassName n),
                  WriteString (case mpObjectName n of Some nm \<Rightarrow> nm | None \<Rightarrow> []),
                  WriteU32 (mRefId n), WriteS32 0]
                 @ emitted (writeAttributes n)
                 @ emitted (writeChildren w d h n)) s)
      | None \<Rightarrow>
          (returned (writeCustomElements w d h n),
           puts ([WriteString (getClassName n),
                  WriteString (case mpObjectName n of Some nm \<Rightarrow> nm | None \<Rightarrow> []),
                  WriteU32 (mRefId n), WriteS32 0]
                 @ emitted (writeAttributes n)
                 @ emitted (writeChildren w d h n)
                 @ emitted (writeCustomElements w d h n)) s))"
proof -
  have "writeElement w (Suc d) h p s =
      andThen (writeChildren w d h n) (writeCustomElements w d h n)
        (puts (Header n @ [WriteS32 0] @ Attributes n) s)"
    by (rule writeElement_body [OF assms])
  then show ?thesis
    by (simp add: andThen_run uniform_writeChildren uniform_writeCustomElements
        uniform_writeElement uniform_writeCustomNode puts_puts Header_def
        emitted_writeAttributes split: option.splits)
qed


theorem writeElement_body_order_witness:
  "writeNode ex_store 1 = Some ex_scene \<and> mRefToNode ex_scene = None \<and>
   writeElement ex_writer (Suc (Suc (Suc (Suc 0)))) ex_store 1 (File ex_file) =
     (None, File \<lparr>fs_status = Ok, fs_contents =
        [Plain (WriteString ''Scene''), Plain (WriteString ''main''),
         Plain (WriteU32 1), Plain (WriteS32 0), Plain (WriteU32 1),
         Plain (WriteString ''Gravity''),
         Plain (WriteLongString 4096 ''0 -9.8''), Plain (WriteU32 2),
         Plain (WriteString ''Sprite''), Plain (WriteString []),
         Plain (WriteU32 7), Plain (WriteS32 0), Plain (WriteU32 0),
         Plain (WriteU32 0), Plain (WriteU32 0),
         Plain (WriteString ''Sprite''), Plain (WriteString []),
         Plain (WriteU32 0), Plain (WriteU32 7), Plain (WriteU32 1),
         Plain (WriteString ''Layers''), Plain (WriteBool False),
         Plain (WriteU32 1), Plain (WriteString ''Image''),
         Plain (WriteBool True), Plain (WriteString ''ImageAsset''),
         Plain (WriteString ''tiles''), Plain (WriteU32 0),
         Plain (WriteS32 0), Plain (WriteU32 0), Plain (WriteU32 0),
         Plain (WriteU32 0), Plain (WriteU32 1),
         Plain (WriteString ''Count''),
         Plain (WriteLongString 8192 ''1'')]\<rparr>)"
proof -
  have 1: "writeNode ex_store 1 = Some ex_scene" by (simp add: ex_store_def)
  have 2: "mRefToNode ex_scene = None" by (simp add: ex_scene_def)
  have c: "returned (writeChildren ex_writer (Suc (Suc (Suc 0))) ex_store ex_scene) = None"
    by (simp add: ex_defs run_defs)
  have a: "emitted (writeAttributes ex_scene) =
      [WriteU32 1, WriteString ''Gravity'', WriteLongString 4096 ''0 -9.8'']"
    by (simp add: ex_defs run_defs)
  have ce: "emitted (writeChildren ex_writer (Suc (Suc (Suc 0))) ex_store ex_scene) =
      [WriteU32 2, WriteString ''Sprite'', WriteString [], WriteU32 7, WriteS32 0,
       WriteU32 0, WriteU32 0, WriteU32 0, WriteString ''Sprite'', WriteString [],
       WriteU32 0, WriteU32 7]"
    by (simp add: ex_defs run_defs)
  have u: "returned (writeCustomElements ex_writer (Suc (Suc (Suc 0))) ex_store ex_scene) = None"
    by (simp add: ex_defs run_defs)
  have ue: "emitted (writeCustomElements ex_writer (Suc (Suc (Suc 0))) ex_store ex_scene) =
      [WriteU32 1, WriteString ''Layers'', WriteBool False, WriteU32 1,
       WriteString ''Image'', WriteBool True, WriteString ''ImageAsset'',
       WriteString ''tiles'', WriteU32 0, WriteS32 0, WriteU32 0, WriteU32 0, WriteU32 0,
       WriteU32 1, WriteString ''Count'', WriteLongString 8192 ''1'']"
    by (simp add: ex_defs run_defs)
  have "writeElement ex_writer (Suc (Suc (Suc (Suc 0)))) ex_store 1 (File ex_file) =
     (None, puts ([WriteString (getClassName ex_scene),
                   WriteString (case mpObjectName ex_scene of Some nm \<Rightarrow> nm | None \<Rightarrow> []),
                   WriteU32 (mRefId ex_scene), WriteS32 0]
                  @ emitted (writeAttributes ex_scene)
                  @ emitted (writeChildren ex_writer (Suc (Suc (Suc 0))) ex_store ex_scene)
                  @ emitted (writeCustomElements ex_writer (Suc (Suc (Suc 0))) ex_store ex_scene))
             (File ex_file))"
    using writeElement_body_order [OF 1 2, of ex_writer "Suc (Suc (Suc 0))" "File ex_file"]
    by (simp only: c u option.case)
  then have "writeElement ex_writer (Suc (Suc (Suc (Suc 0)))) ex_store 1 (File ex_file) =
     (None, File \<lparr>fs_status = Ok, fs_contents =
        map Plain ([WriteString ''Scene'', WriteString ''main'', WriteU32 1, WriteS32 0]
          @ [WriteU32 1, WriteString ''Gravity'', WriteLongString 4096 ''0 -9.8'']
          @ [WriteU32 2, WriteString ''Sprite'', WriteString [], WriteU32 7, WriteS32 0,
             WriteU32 0, WriteU32 0, WriteU32 0, WriteString ''Sprite'', WriteString [],
             WriteU32 0, WriteU32 7]
          @ [WriteU32 1, WriteString ''Layers'', WriteBool False, WriteU32 1,
             WriteString ''Image'', WriteBool True, WriteString ''ImageAsset'',
             WriteString ''tiles'', WriteU32 0, WriteS32 0, WriteU32 0, WriteU32 0, WriteU32 0,
             WriteU32 1, WriteString ''Count'', WriteLongString 8192 ''1''])\<rparr>)"
    by (simp add: a ce ue ex_file_def puts_File_Ok) (simp add: ex_scene_def)
  then have "writeElement ex_writer (Suc (Suc (Suc (Suc 0)))) ex_store 1 (File ex_file) =
     (None, File \<lparr>fs_status = Ok, fs_contents =
        [Plain (WriteString ''Scene''), Plain (WriteString ''main''),
         Plain (WriteU32 1), Plain (WriteS32 0), Plain (WriteU32 1),
         Plain (WriteString ''Gravity''),
         Plain (WriteLongString 4096 ''0 -9.8''), Plain (WriteU32 2),
         Plain (WriteString ''Sprite''), Plain (WriteString []),
         Plain (WriteU32 7), Plain (WriteS32 0), Plain (WriteU32 0),
         Plain (WriteU32 0), Plain (WriteU32 0),
         Plain (WriteString ''Sprite''), Plain (WriteString []),
         Plain (WriteU32 0), Plain (WriteU32 7), Plain (WriteU32 1),
         Plain (WriteString ''Layers''), Plain (WriteBool False),
         Plain (WriteU32 1), Plain (WriteString ''Image''),
         Plain (WriteBool True), Plain (WriteString ''ImageAsset''),
         Plain (WriteString ''tiles''), Plain (WriteU32 0),
         Plain (WriteS32 0), Plain (WriteU32 0), Plain (WriteU32 0),
         Plain (WriteU32 0), Plain (WriteU32 1),
         Plain (WriteString ''Count''),
         Plain (WriteLongString 8192 ''1'')]\<rparr>)"
    by simp
  with 1 2 show ?thesis by (intro conjI)
qed

text \<open>
  C9. For a node with no reference target, no fields, no children (the container absent
  or empty) and no custom nodes, what follows the header, the id and the literal 0 is
  three \<^verbatim>\<open>U32\<close> counts 0 and nothing else.
\<close>

theorem writeElement_empty_node:
  assumes "writeNode h p = Some n" and "mRefToNode n = None" and "mFields n = []"
    and "mChildren n = None \<or> mChildren n = Some []" and "mCustomNodes n = []"
  shows "writeElement w (Suc d) h p s =
     (None, puts ([WriteString (getClassName n),
                   WriteString (case mpObjectName n of Some nm \<Rightarrow> nm | None \<Rightarrow> []),
                   WriteU32 (mRefId n), WriteS32 0]
                  @ [WriteU32 0, WriteU32 0, WriteU32 0]) s)"
proof -
  have "childrenOf n = []"
    using assms(4) by (auto simp: childrenOf_def)
  then show ?thesis
    using assms(3,5)
    by (simp add: writeElement_body [OF assms(1,2)] andThen_def writeChildren_forEach
        writeCustomElements_forEach Attributes_def Header_def puts_puts)
qed

theorem writeElement_empty_node_witness:
  "writeNode ex_store 2 = Some ex_sprite \<and> mRefToNode ex_sprite = None \<and>
   mFields ex_sprite = [] \<and> mChildren ex_sprite = None \<and> mCustomNodes ex_sprite = [] \<and>
   writeElement ex_writer (Suc 0) ex_store 2 (File ex_file) =
     (None, File \<lparr>fs_status = Ok, fs_contents =
        [Plain (WriteString ''Sprite''), Plain (WriteString []), Plain (WriteU32 7),
         Plain (WriteS32 0), Plain (WriteU32 0), Plain (WriteU32 0), Plain (WriteU32 0)]\<rparr>) \<and>
   writeNode ex_store 4 = Some ex_image \<and> mRefToNode ex_image = None \<and>
   mFields ex_image = [] \<and> mChildren ex_image = Some [] \<and> mCustomNodes ex_image = [] \<and>
   writeElement ex_writer (Suc 0) ex_store 4 (File ex_file) =
     (None, File \<lparr>fs_status = Ok, fs_contents =
        [Plain (WriteString ''ImageAsset''), Plain (WriteString ''tiles''), Plain (WriteU32 0),
         Plain (WriteS32 0), Plain (WriteU32 0), Plain (WriteU32 0), Plain (WriteU32 0)]\<rparr>)"
proof -
  have s: "writeNode ex_store 2 = Some ex_sprite" "mRefToNode ex_sprite = None"
    "mFields ex_sprite = []" "mChildren ex_sprite = None" "mCustomNodes ex_sprite = []"
    by (simp_all add: ex_store_def ex_sprite_def)
  have i: "writeNode ex_store 4 = Some ex_image" "mRefToNode ex_image = None"
    "mFields ex_image = []" "mChildren ex_image = Some []" "mCustomNodes ex_image = []"
    by (simp_all add: ex_store_def ex_image_def)
  show ?thesis
    using writeElement_empty_node [OF s(1-3) disjI1 [OF s(4)] s(5), of ex_writer 0 "File ex_file"]
      writeElement_empty_node [OF i(1-3) disjI2 [OF i(4)] i(5), of ex_writer 0 "File ex_file"]
    by (simp add: s i puts_File_Ok ex_file_def) (simp add: ex_sprite_def ex_image_def)
qed


lemma fitsU32_count_0: "fitsU32 xs \<Longrightarrow> (of_nat (length xs) :: U32) = 0 \<longleftrightarrow> xs = []"
proof
  assume f: "fitsU32 xs" and z: "(of_nat (length xs) :: U32) = 0"
  have "unat (of_nat (length xs) :: U32) = length xs"
    using f by (simp add: fitsU32_def unat_of_nat)
  with z show "xs = []" by simp
qed simp

lemma fitsU32_count_pos: "fitsU32 xs \<Longrightarrow> (0 :: U32) < of_nat (length xs) \<longleftrightarrow> xs \<noteq> []"
  by (simp add: word_greater_zero_iff fitsU32_count_0)

text \<open>
  C6. \<^verbatim>\<open>writeChildren\<close> issues the child count and then runs \<^verbatim>\<open>writeElement\<close> on each child
  in array order: when each child's encoding returns, the count is followed by what
  \<^verbatim>\<open>writeElement\<close> emits for the first child, the second, and so on. A node whose
  children container is absent and one whose container is empty give the same: the
  single count 0.
\<close>

theorem writeChildren_layout:
  "(mChildren n = Some cs \<longrightarrow>
      writeChildren w d h n s =
        forEach (writeElement w d h) cs (puts [WriteU32 (of_nat (length cs))] s))
   \<and> (mChildren n = Some cs \<and> (\<forall>c \<in> set cs. returned (writeElement w d h c) = None) \<longrightarrow>
      writeChildren w d h n s =
        (None, puts (WriteU32 (of_nat (length cs)) #
                     concat (map (\<lambda>c. emitted (writeElement w d h c)) cs)) s))
   \<and> (mChildren n = None \<or> mChildren n = Some [] \<longrightarrow>
        writeChildren w d h n s = (None, puts [WriteU32 0] s))
   \<and> (mChildren a = None \<and> mChildren b = Some [] \<longrightarrow>
        writeChildren w d h a s = writeChildren w d h b s)"
proof (intro conjI impI)
  assume "mChildren n = Some cs"
  then show "writeChildren w d h n s =
        forEach (writeElement w d h) cs (puts [WriteU32 (of_nat (length cs))] s)"
    by (simp add: writeChildren_forEach childrenOf_def)
next
  assume "mChildren n = Some cs \<and> (\<forall>c \<in> set cs. returned (writeElement w d h c) = None)"
  then have cs: "childrenOf n = cs" and r: "\<And>c. c \<in> set cs \<Longrightarrow> returned (writeElement w d h c) = None"
    by (simp_all add: childrenOf_def)
  have "forEach (writeElement w d h) cs (puts [WriteU32 (of_nat (length cs))] s) =
      (None, puts (concat (map (\<lambda>c. emitted (writeElement w d h c)) cs))
               (puts [WriteU32 (of_nat (length cs))] s))"
    by (rule forEach_all_return) (simp_all add: uniform_writeElement r)
  then show "writeChildren w d h n s =
        (None, puts (WriteU32 (of_nat (length cs)) #
                     concat (map (\<lambda>c. emitted (writeElement w d h c)) cs)) s)"
    by (simp add: writeChildren_forEach cs puts_puts)
next
  assume "mChildren n = None \<or> mChildren n = Some []"
  then have "childrenOf n = []" by (auto simp: childrenOf_def)
  then show "writeChildren w d h n s = (None, puts [WriteU32 0] s)"
    by (simp add: writeChildren_forEach)
next
  assume "mChildren a = None \<and> mChildren b = Some []"
  then have "childrenOf a = []" "childrenOf b = []" by (simp_all add: childrenOf_def)
  then show "writeChildren w d h a s = writeChildren w d h b s"
    by (simp add: writeChildren_forEach)
qed

theorem writeChildren_layout_witness:
  "mChildren ex_scene = Some [2, 3] \<and>
   returned (writeElement ex_writer (Suc 0) ex_store 2) = None \<and>
   returned (writeElement ex_writer (Suc 0) ex_store 3) = None \<and>
   writeChildren ex_writer (Suc 0) ex_store ex_scene (File ex_file) =
     (None, File \<lparr>fs_status = Ok, fs_contents = map Plain
        ([WriteU32 2]
         @ [WriteString ''Sprite'', WriteString [], WriteU32 7, WriteS32 0,
            WriteU32 0, WriteU32 0, WriteU32 0]
         @ [WriteString ''Sprite'', WriteString [], WriteU32 0, WriteU32 7])\<rparr>) \<and>
   mChildren ex_sprite = None \<and> mChildren ex_image = Some [] \<and>
   writeChildren ex_writer 0 ex_store ex_sprite (File ex_file) =
     (None, File \<lparr>fs_status = Ok, fs_contents = [Plain (WriteU32 0)]\<rparr>) \<and>
   writeChildren ex_writer 0 ex_store ex_image (File ex_file) =
     (None, File \<lparr>fs_status = Ok, fs_contents = [Plain (WriteU32 0)]\<rparr>)"
proof -
  have c: "mChildren ex_scene = Some [2, 3]" by (simp add: ex_scene_def)
  have r2: "returned (writeElement ex_writer (Suc 0) ex_store 2) = None"
    by (simp add: ex_defs run_defs)
  have r3: "returned (writeElement ex_writer (Suc 0) ex_store 3) = None"
    by (simp add: ex_defs run_defs)
  have e2: "emitted (writeElement ex_writer (Suc 0) ex_store 2) =
      [WriteString ''Sprite'', WriteString [], WriteU32 7, WriteS32 0,
       WriteU32 0, WriteU32 0, WriteU32 0]"
    by (simp add: ex_defs run_defs)
  have e3: "emitted (writeElement ex_writer (Suc 0) ex_store 3) =
      [WriteString ''Sprite'', WriteString [], WriteU32 0, WriteU32 7]"
    by (simp add: ex_defs run_defs)
  have n: "mChildren ex_sprite = None" by (simp add: ex_sprite_def)
  have e: "mChildren ex_image = Some []" by (simp add: ex_image_def)
  have 1: "writeChildren ex_writer (Suc 0) ex_store ex_scene (File ex_file) =
     (None, File \<lparr>fs_status = Ok, fs_contents = map Plain
        ([WriteU32 2]
         @ [WriteString ''Sprite'', WriteString [], WriteU32 7, WriteS32 0,
            WriteU32 0, WriteU32 0, WriteU32 0]
         @ [WriteString ''Sprite'', WriteString [], WriteU32 0, WriteU32 7])\<rparr>)"
    using conjunct1 [OF conjunct2
        [OF writeChildren_layout [of ex_scene "[2, 3]" ex_writer "Suc 0" ex_store "File ex_file"]]]
    by (simp add: c r2 r3 e2 e3 puts_File_Ok ex_file_def)
  have 2: "writeChildren ex_writer 0 ex_store ex_sprite (File ex_file) =
     (None, File \<lparr>fs_status = Ok, fs_contents = [Plain (WriteU32 0)]\<rparr>)"
    using conjunct1 [OF conjunct2 [OF conjunct2
        [OF writeChildren_layout [of ex_sprite _ ex_writer 0 ex_store "File ex_file"]]]]
    by (simp add: n puts_File_Ok ex_file_def)
  have 3: "writeChildren ex_writer 0 ex_store ex_image (File ex_file) =
     (None, File \<lparr>fs_status = Ok, fs_contents = [Plain (WriteU32 0)]\<rparr>)"
    using conjunct1 [OF conjunct2 [OF conjunct2
        [OF writeChildren_layout [of ex_image _ ex_writer 0 ex_store "File ex_file"]]]]
    by (simp add: e puts_File_Ok ex_file_def)
  from c r2 r3 1 n e 2 3 show ?thesis by (intro conjI)
qed

text \<open>
  C4. \<^verbatim>\<open>writeCustomNode\<close> issues the node name and the proxy flag. For a proxy it then
  emits what \<^verbatim>\<open>writeElement\<close> emits for the wrapped node and ends as that call ends: no
  child count, no field count. Otherwise it issues the child count, what
  \<^verbatim>\<open>writeCustomNode\<close> emits for each child in order, the field count, and for each field
  in order its name and its value with the bound \<^verbatim>\<open>MAX_TAML_NODE_FIELDVALUE_LENGTH\<close>.
\<close>

theorem writeCustomNode_layout:
  assumes "customNode h q = Some c"
  shows "(isProxyObject c \<longrightarrow>
            writeCustomNode w (Suc d) h q s =
              (returned (writeElement w d h (getProxyWriteNode c)),
               puts ([WriteString (mNodeName c), WriteBool True]
                     @ emitted (writeElement w d h (getProxyWriteNode c))) s))
       \<and> (\<not> isProxyObject c \<and> fitsU32 (getChildren c) \<and> fitsU32 (getFields c) \<and>
            (\<forall>k \<in> set (getChildren c). returned (writeCustomNode w d h k) = None) \<longrightarrow>
            writeCustomNode w (Suc d) h q s =
              (None,
               puts ([WriteString (mNodeName c), WriteBool False]
                     @ WriteU32 (of_nat (length (getChildren c)))
                       # concat (map (\<lambda>k. emitted (writeCustomNode w d h k)) (getChildren c))
                     @ WriteU32 (of_nat (length (getFields c)))
                       # concat (map (\<lambda>f. [WriteString (getFieldName f),
                                            WriteLongString (MAX_TAML_NODE_FIELDVALUE_LENGTH w)
                                              (getFieldValue f)])
                                   (getFields c))) s))"
proof (intro conjI impI)
  assume "isProxyObject c"
  then show "writeCustomNode w (Suc d) h q s =
      (returned (writeElement w d h (getProxyWriteNode c)),
       puts ([WriteString (mNodeName c), WriteBool True]
             @ emitted (writeElement w d h (getProxyWriteNode c))) s)"
    by (simp add: writeCustomNode_proxy [OF assms]
        run_writeElement [of w d h "getProxyWriteNode c" "puts _ s"] puts_puts)
next
  assume a: "\<not> isProxyObject c \<and> fitsU32 (getChildren c) \<and> fitsU32 (getFields c) \<and>
            (\<forall>k \<in> set (getChildren c). returned (writeCustomNode w d h k) = None)"
  let ?s = "puts [WriteString (mNodeName c), WriteBool False,
                  WriteU32 (of_nat (length (getChildren c)))] s"
  have ch: "(if (0 :: U32) < of_nat (length (getChildren c)) then getChildren c else []) =
      getChildren c"
    using a by (simp add: fitsU32_count_pos)
  have fl: "(if (0 :: U32) < of_nat (length (getFields c))
             then CustomFields (MAX_TAML_NODE_FIELDVALUE_LENGTH w) c else [WriteU32 0]) =
      CustomFields (MAX_TAML_NODE_FIELDVALUE_LENGTH w) c"
    using a by (simp add: fitsU32_count_pos CustomFields_def)
  have loop: "forEach (writeCustomNode w d h) (getChildren c) ?s =
      (None, puts (concat (map (\<lambda>k. emitted (writeCustomNode w d h k)) (getChildren c))) ?s)"
    using a by (intro forEach_all_return) (simp_all add: uniform_writeCustomNode)
  show "writeCustomNode w (Suc d) h q s =
      (None,
       puts ([WriteString (mNodeName c), WriteBool False]
             @ WriteU32 (of_nat (length (getChildren c)))
               # concat (map (\<lambda>k. emitted (writeCustomNode w d h k)) (getChildren c))
             @ WriteU32 (of_nat (length (getFields c)))
               # concat (map (\<lambda>f. [WriteString (getFieldName f),
                                    WriteLongString (MAX_TAML_NODE_FIELDVALUE_LENGTH w)
                                      (getFieldValue f)])
                           (getFields c))) s)"
    using a
    by (simp add: writeCustomNode_plain [OF assms] ch fl andThen_def loop puts_puts
        CustomFields_def)
qed


theorem writeCustomNode_layout_witness:
  "customNode ex_store 11 = Some ex_proxy \<and> isProxyObject ex_proxy \<and>
   writeCustomNode ex_writer (Suc (Suc 0)) ex_store 11 (File ex_file) =
     (None, File \<lparr>fs_status = Ok, fs_contents = map Plain
        ([WriteString ''Image'', WriteBool True]
         @ [WriteString ''ImageAsset'', WriteString ''tiles'', WriteU32 0, WriteS32 0,
            WriteU32 0, WriteU32 0, WriteU32 0])\<rparr>) \<and>
   customNode ex_store 10 = Some ex_layers \<and> \<not> isProxyObject ex_layers \<and>
   fitsU32 (getChildren ex_layers) \<and> fitsU32 (getFields ex_layers) \<and>
   returned (writeCustomNode ex_writer (Suc (Suc 0)) ex_store 11) = None \<and>
   writeCustomNode ex_writer (Suc (Suc (Suc 0))) ex_store 10 (File ex_file) =
     (None, File \<lparr>fs_status = Ok, fs_contents = map Plain
        ([WriteString ''Layers'', WriteBool False]
         @ [WriteU32 1, WriteString ''Image'', WriteBool True, WriteString ''ImageAsset'',
            WriteString ''tiles'', WriteU32 0, WriteS32 0, WriteU32 0, WriteU32 0, WriteU32 0]
         @ [WriteU32 1, WriteString ''Count'', WriteLongString 8192 ''1''])\<rparr>)"
proof -
  have p: "customNode ex_store 11 = Some ex_proxy" "isProxyObject ex_proxy"
    by (simp_all add: ex_store_def ex_proxy_def)
  have l: "customNode ex_store 10 = Some ex_layers" "\<not> isProxyObject ex_layers"
    "fitsU32 (getChildren ex_layers)" "fitsU32 (getFields ex_layers)"
    by (simp_all add: ex_store_def ex_layers_def fitsU32_def)
  have r4: "returned (writeElement ex_writer (Suc 0) ex_store (getProxyWriteNode ex_proxy)) = None"
    by (simp add: ex_defs run_defs)
  have e4: "emitted (writeElement ex_writer (Suc 0) ex_store (getProxyWriteNode ex_proxy)) =
      [WriteString ''ImageAsset'', WriteString ''tiles'', WriteU32 0, WriteS32 0,
       WriteU32 0, WriteU32 0, WriteU32 0]"
    by (simp add: ex_defs run_defs)
  have r11: "returned (writeCustomNode ex_writer (Suc (Suc 0)) ex_store 11) = None"
    by (simp add: ex_defs run_defs)
  have e11: "emitted (writeCustomNode ex_writer (Suc (Suc 0)) ex_store 11) =
      [WriteString ''Image'', WriteBool True, WriteString ''ImageAsset'',
       WriteString ''tiles'', WriteU32 0, WriteS32 0, WriteU32 0, WriteU32 0, WriteU32 0]"
    by (simp add: ex_defs run_defs)
  have 1: "writeCustomNode ex_writer (Suc (Suc 0)) ex_store 11 (File ex_file) =
     (None, File \<lparr>fs_status = Ok, fs_contents = map Plain
        ([WriteString ''Image'', WriteBool True]
         @ [WriteString ''ImageAsset'', WriteString ''tiles'', WriteU32 0, WriteS32 0,
            WriteU32 0, WriteU32 0, WriteU32 0])\<rparr>)"
    using writeCustomNode_layout [OF p(1), of ex_writer "Suc 0" "File ex_file"] p(2)
    by (simp add: r4 e4 puts_File_Ok ex_file_def) (simp add: ex_proxy_def)
  have 2: "writeCustomNode ex_writer (Suc (Suc (Suc 0))) ex_store 10 (File ex_file) =
     (None, File \<lparr>fs_status = Ok, fs_contents = map Plain
        ([WriteString ''Layers'', WriteBool False]
         @ [WriteU32 1, WriteString ''Image'', WriteBool True, WriteString ''ImageAsset'',
            WriteString ''tiles'', WriteU32 0, WriteS32 0, WriteU32 0, WriteU32 0, WriteU32 0]
         @ [WriteU32 1, WriteString ''Count'', WriteLongString 8192 ''1''])\<rparr>)"
  proof -
    have k: "\<forall>k \<in> set (getChildren ex_layers).
        returned (writeCustomNode ex_writer (Suc (Suc 0)) ex_store k) = None"
      by (simp add: ex_layers_def r11)
    have "writeCustomNode ex_writer (Suc (Suc (Suc 0))) ex_store 10 (File ex_file) =
      (None,
       puts ([WriteString (mNodeName ex_layers), WriteBool False]
             @ WriteU32 (of_nat (length (getChildren ex_layers)))
               # concat (map (\<lambda>k. emitted (writeCustomNode ex_writer (Suc (Suc 0)) ex_store k))
                           (getChildren ex_layers))
             @ WriteU32 (of_nat (length (getFields ex_layers)))
               # concat (map (\<lambda>f. [WriteString (getFieldName f),
                                    WriteLongString (MAX_TAML_NODE_FIELDVALUE_LENGTH ex_writer)
                                      (getFieldValue f)])
                           (getFields ex_layers))) (File ex_file))"
      using writeCustomNode_layout [OF l(1), of ex_writer "Suc (Suc 0)" "File ex_file"] l k
      by blast
    moreover have "MAX_TAML_NODE_FIELDVALUE_LENGTH ex_writer = 8192"
      by (simp add: ex_writer_def)
    ultimately show ?thesis
      by (simp add: ex_layers_def e11 puts_File_Ok ex_file_def)
  qed
  from p 1 l r11 2 show ?thesis by (intro conjI)
qed


subsection \<open>The document writer\<close>

lemma put_File: "put x (File fs) = File (snd (fs_write (Plain x) fs))"
  by (simp add: put_def stream_write_def split_beta)

lemma puts_File: "\<exists>fs'. puts xs (File fs) = File fs'"
  by (induction xs arbitrary: fs) (simp_all add: puts_Nil puts_Cons put_File)

lemma unFile_puts: "unFile d (puts xs (File fs)) = unFile d' (puts xs (File fs))"
proof -
  obtain fs' where "puts xs (File fs) = File fs'"
    using puts_File by blast
  then show ?thesis by (simp add: unFile_def)
qed

lemma writeElement_into_zip:
  "writeElement w d h root (Zip (attachStream ZipSubWStream_new)) =
     (returned (writeElement w d h root),
      Zip \<lparr>zs_attached = True, zs_pending = emitted (writeElement w d h root)\<rparr>)"
  by (simp add: run_writeElement attachStream_def ZipSubWStream_new_def puts_Zip_attached)

lemma write_header:
  "File (snd (fs_write (Plain (WriteBool c))
           (snd (fs_write (Plain (WriteU32 (mVersionId w)))
             (snd (fs_write (Plain (WriteString (TAML_SIGNATURE w))) fs))))))
   = puts [WriteString (TAML_SIGNATURE w), WriteU32 (mVersionId w), WriteBool c] (File fs)"
  by (simp add: puts_Cons puts_Nil put_File)

lemma write_compressed:
  "TamlBinaryWriter_write w d h fs root True =
     (case returned (writeElement w d h root) of
        Some e \<Rightarrow>
          (Inl e,
           unFile fs (puts [WriteString (TAML_SIGNATURE w), WriteU32 (mVersionId w),
                           WriteBool True] (File fs)))
      | None \<Rightarrow>
          (Inr True,
           snd (detachStream
                  \<lparr>zs_attached = True, zs_pending = emitted (writeElement w d h root)\<rparr>
                  (unFile fs (puts [WriteString (TAML_SIGNATURE w), WriteU32 (mVersionId w),
                                    WriteBool True] (File fs))))))"
  unfolding TamlBinaryWriter_write_def Let_def
  by (simp add: writeElement_into_zip unZip_def write_header [symmetric] unFile_def
      split: option.splits)

lemma write_plain:
  "TamlBinaryWriter_write w d h fs root False =
     (case returned (writeElement w d h root) of Some e \<Rightarrow> Inl e | None \<Rightarrow> Inr True,
      unFile fs (puts ([WriteString (TAML_SIGNATURE w), WriteU32 (mVersionId w),
                        WriteBool False] @ emitted (writeElement w d h root)) (File fs)))"
proof -
  let ?hdr = "[WriteString (TAML_SIGNATURE w), WriteU32 (mVersionId w), WriteBool False]"
  let ?fs3 = "snd (fs_write (Plain (WriteBool False))
                (snd (fs_write (Plain (WriteU32 (mVersionId w)))
                  (snd (fs_write (Plain (WriteString (TAML_SIGNATURE w))) fs)))))"
  let ?E = "writeElement w d h root"
  have fr: "?E (File ?fs3) = (returned ?E, puts (?hdr @ emitted ?E) (File fs))"
    by (simp add: run_writeElement write_header puts_puts del: puts_Cons)
  have u: "unFile ?fs3 (puts (?hdr @ emitted ?E) (File fs)) =
      unFile fs (puts (?hdr @ emitted ?E) (File fs))"
    by (rule unFile_puts)
  show ?thesis
    unfolding TamlBinaryWriter_write_def Let_def
    by (auto simp: fr split: option.splits intro: unFile_puts)
qed


text \<open>
  C3. For every root node whose encoding returns, and for both values of
  \<^verbatim>\<open>compressed\<close>, \<^verbatim>\<open>write\<close> first issues to the file stream itself the signature string,
  the version id and the flag. With the flag false it then issues the root element's calls
  to the same stream. With the flag true the root element goes to the attached
  compressing stream, which is detached before \<^verbatim>\<open>write\<close> returns: the file holds the three
  header items as written, followed by the one deflated block of the element.
\<close>

theorem write_layout:
  assumes "returned (writeElement w d h root) = None"
  shows "TamlBinaryWriter_write w d h fs root False =
           (Inr True,
            unFile fs (puts ([WriteString (TAML_SIGNATURE w), WriteU32 (mVersionId w),
                              WriteBool False] @ emitted (writeElement w d h root)) (File fs)))
       \<and> TamlBinaryWriter_write w d h fs root True =
           (Inr True,
            snd (detachStream
                   \<lparr>zs_attached = True, zs_pending = emitted (writeElement w d h root)\<rparr>
                   (unFile fs (puts [WriteString (TAML_SIGNATURE w), WriteU32 (mVersionId w),
                                     WriteBool True] (File fs)))))
       \<and> (fs_status fs = Ok \<longrightarrow>
            TamlBinaryWriter_write w d h fs root False =
              (Inr True,
               fs\<lparr>fs_contents := fs_contents fs
                    @ [Plain (WriteString (TAML_SIGNATURE w)), Plain (WriteU32 (mVersionId w)),
                       Plain (WriteBool False)]
                    @ map Plain (emitted (writeElement w d h root))\<rparr>)
          \<and> TamlBinaryWriter_write w d h fs root True =
              (Inr True,
               fs\<lparr>fs_contents := fs_contents fs
                    @ [Plain (WriteString (TAML_SIGNATURE w)), Plain (WriteU32 (mVersionId w)),
                       Plain (WriteBool True)]
                    @ [Deflated (emitted (writeElement w d h root))]\<rparr>))"
  using assms
  by (simp add: write_plain write_compressed puts_File_Ok unFile_def detachStream_def
      fs_write_def del: puts_Cons)

theorem write_layout_witness:
  "returned (writeElement ex_writer (Suc (Suc (Suc (Suc 0)))) ex_store 1) = None \<and>
   fs_status ex_file = Ok \<and>
   TamlBinaryWriter_write ex_writer (Suc (Suc (Suc (Suc 0)))) ex_store ex_file 1 False =
     (Inr True, \<lparr>fs_status = Ok, fs_contents =
        [Plain (WriteString ''Taml''), Plain (WriteU32 2), Plain (WriteBool False)]
        @ map Plain
           [WriteString ''Scene'', WriteString ''main'', WriteU32 1, WriteS32 0,
            WriteU32 1, WriteString ''Gravity'', WriteLongString 4096 ''0 -9.8'',
            WriteU32 2, WriteString ''Sprite'', WriteString [], WriteU32 7,
            WriteS32 0, WriteU32 0, WriteU32 0, WriteU32 0, WriteString ''Sprite'',
            WriteString [], WriteU32 0, WriteU32 7, WriteU32 1,
            WriteString ''Layers'', WriteBool False, WriteU32 1,
            WriteString ''Image'', WriteBool True, WriteString ''ImageAsset'',
            WriteString ''tiles'', WriteU32 0, WriteS32 0, WriteU32 0, WriteU32 0,
            WriteU32 0, WriteU32 1, WriteString ''Count'',
            WriteLongString 8192 ''1'']\<rparr>) \<and>
   TamlBinaryWriter_write ex_writer (Suc (Suc (Suc (Suc 0)))) ex_store ex_file 1 True =
     (Inr True, \<lparr>fs_status = Ok, fs_contents =
        [Plain (WriteString ''Taml''), Plain (WriteU32 2), Plain (WriteBool True),
         Deflated
           [WriteString ''Scene'', WriteString ''main'', WriteU32 1, WriteS32 0,
            WriteU32 1, WriteString ''Gravity'', WriteLongString 4096 ''0 -9.8'',
            WriteU32 2, WriteString ''Sprite'', WriteString [], WriteU32 7,
            WriteS32 0, WriteU32 0, WriteU32 0, WriteU32 0, WriteString ''Sprite'',
            WriteString [], WriteU32 0, WriteU32 7, WriteU32 1,
            WriteString ''Layers'', WriteBool False, WriteU32 1,
            WriteString ''Image'', WriteBool True, WriteString ''ImageAsset'',
            WriteString ''tiles'', WriteU32 0, WriteS32 0, WriteU32 0, WriteU32 0,
            WriteU32 0, WriteU32 1, WriteString ''Count'',
            WriteLongString 8192 ''1'']]\<rparr>)"
proof -
  let ?d = "Suc (Suc (Suc (Suc 0)))"
  have r: "returned (writeElement ex_writer ?d ex_store 1) = None"
    by (simp add: ex_defs run_defs)
  have e: "emitted (writeElement ex_writer ?d ex_store 1) =
           [WriteString ''Scene'', WriteString ''main'', WriteU32 1, WriteS32 0,
            WriteU32 1, WriteString ''Gravity'', WriteLongString 4096 ''0 -9.8'',
            WriteU32 2, WriteString ''Sprite'', WriteString [], WriteU32 7,
            WriteS32 0, WriteU32 0, WriteU32 0, WriteU32 0, WriteString ''Sprite'',
            WriteString [], WriteU32 0, WriteU32 7, WriteU32 1,
            WriteString ''Layers'', WriteBool False, WriteU32 1,
            WriteString ''Image'', WriteBool True, WriteString ''ImageAsset'',
            WriteString ''tiles'', WriteU32 0, WriteS32 0, WriteU32 0, WriteU32 0,
            WriteU32 0, WriteU32 1, WriteString ''Count'',
            WriteLongString 8192 ''1'']"
    by (simp add: ex_defs run_defs)
  have k: "fs_status ex_file = Ok" by (simp add: ex_file_def)
  have w: "TAML_SIGNATURE ex_writer = ''Taml''" "mVersionId ex_writer = 2"
    by (simp_all add: ex_writer_def)
  have c: "fs_contents ex_file = []" by (simp add: ex_file_def)
  have x: "ex_file\<lparr>fs_contents := xs\<rparr> = \<lparr>fs_status = Ok, fs_contents = xs\<rparr>" for xs
    by (simp add: ex_file_def)
  note t = conjunct2 [OF conjunct2 [OF write_layout [OF r, of ex_file]], THEN mp, OF k]
  from t have "TamlBinaryWriter_write ex_writer ?d ex_store ex_file 1 False =
     (Inr True, \<lparr>fs_status = Ok, fs_contents =
        [Plain (WriteString ''Taml''), Plain (WriteU32 2), Plain (WriteBool False)]
        @ map Plain (emitted (writeElement ex_writer ?d ex_store 1))\<rparr>)"
    by (simp add: w c x)
  moreover from t have "TamlBinaryWriter_write ex_writer ?d ex_store ex_file 1 True =
     (Inr True, \<lparr>fs_status = Ok, fs_contents =
        [Plain (WriteString ''Taml''), Plain (WriteU32 2), Plain (WriteBool True),
         Deflated (emitted (writeElement ex_writer ?d ex_store 1))]\<rparr>)"
    by (simp add: w c x)
  ultimately show ?thesis
    using r k by (simp only: e)
qed

text \<open>
  C7, as the code has it. The result of \<^verbatim>\<open>write\<close> is fixed by how the encoding of the root
  ends: \<^verbatim>\<open>true\<close> whenever it returns, never \<^verbatim>\<open>false\<close>, and the same for every file
  stream. The results of the stream's writes are dropped, so a failed write is not
  reported. The instance below is a file stream that refuses every write: \<^verbatim>\<open>write\<close>
  returns \<^verbatim>\<open>true\<close> and nothing has been written.
\<close>

theorem write_result_ignores_stream:
  "fst (TamlBinaryWriter_write w d h fs root compressed) =
     (case returned (writeElement w d h root) of None \<Rightarrow> Inr True | Some e \<Rightarrow> Inl e)
   \<and> fst (TamlBinaryWriter_write w d h fs root compressed) \<noteq> Inr False
   \<and> fst (TamlBinaryWriter_write w d h fs root compressed) =
     fst (TamlBinaryWriter_write w d h fs' root compressed)"
  by (cases compressed) (simp_all add: write_plain write_compressed split: option.splits)

theorem write_failure_not_reported:
  "fst (fs_write (Plain (WriteString (TAML_SIGNATURE ex_writer))) ex_failed_file) = False \<and>
   TamlBinaryWriter_write ex_writer (Suc (Suc (Suc (Suc 0)))) ex_store ex_failed_file 1 False =
     (Inr True, \<lparr>fs_status = IOError, fs_contents = []\<rparr>) \<and>
   TamlBinaryWriter_write ex_writer (Suc (Suc (Suc (Suc 0)))) ex_store ex_failed_file 1 True =
     (Inr True, \<lparr>fs_status = IOError, fs_contents = []\<rparr>)"
  by (simp add: TamlBinaryWriter_write_def unFile_def unZip_def detachStream_def attachStream_def
      ZipSubWStream_new_def ex_defs run_defs)


subsection \<open>The assertion on the reference id\<close>

lemma forEach_no_fault:
  assumes "\<And>x t. x \<in> set xs \<Longrightarrow> fst (f x t) \<noteq> Some e"
  shows "fst (forEach f xs s) \<noteq> Some e"
  using assms
proof (induction xs arbitrary: s)
  case Nil
  show ?case by simp
next
  case (Cons x xs)
  obtain r s' where fx: "f x s = (r, s')" by (cases "f x s")
  have "r \<noteq> Some e" using Cons.prems [of x s] fx by simp
  moreover have "fst (forEach f xs s') \<noteq> Some e"
    by (rule Cons.IH) (simp add: Cons.prems)
  ultimately show ?case by (auto simp: fx split: option.splits)
qed

lemma andThen_no_fault:
  assumes "\<And>t. fst (f t) \<noteq> Some e" and "\<And>t. fst (g t) \<noteq> Some e"
  shows "fst (andThen f g s) \<noteq> Some e"
proof -
  obtain r s' where fs: "f s = (r, s')" by (cases "f s")
  have "r \<noteq> Some e" using assms(1) [of s] fs by simp
  then show ?thesis using assms(2) by (auto simp: andThen_def fs split: option.splits)
qed

lemma writeElement_no_abort_Suc:
  assumes a: "refTargetsAssigned h"
    and e: "\<And>p s. fst (writeElement w d h p s) \<noteq> Some (AssertFailed m)"
    and c: "\<And>q s. fst (writeCustomNode w d h q s) \<noteq> Some (AssertFailed m)"
  shows "fst (writeElement w (Suc d) h p s) \<noteq> Some (AssertFailed m)"
proof (cases "writeNode h p")
  case None
  then show ?thesis by (simp add: writeElement_BadPointer)
next
  case (Some n)
  show ?thesis
  proof (cases "mRefToNode n")
    case None
    have "fst (writeChildren w d h n t) \<noteq> Some (AssertFailed m)" for t
      by (simp only: writeChildren_forEach) (rule forEach_no_fault, rule e)
    moreover have "fst (writeCustomElements w d h n t) \<noteq> Some (AssertFailed m)" for t
      by (simp only: writeCustomElements_forEach) (rule forEach_no_fault, rule c)
    ultimately show ?thesis
      by (simp only: writeElement_body [OF Some None]) (rule andThen_no_fault)
  next
    case t: (Some t)
    show ?thesis
    proof (cases "writeNode h t")
      case None
      show ?thesis by (simp add: writeElement_alias_BadPointer [OF Some t None])
    next
      case target: (Some target)
      have "mRefId target \<noteq> 0"
        using a Some t target unfolding refTargetsAssigned_def by blast
      then show ?thesis
        by (simp add: writeElement_alias [OF Some t target] AssertFatal_def)
    qed
  qed
qed

lemma writeCustomNode_no_abort_Suc:
  assumes e: "\<And>p s. fst (writeElement w d h p s) \<noteq> Some (AssertFailed m)"
    and c: "\<And>q s. fst (writeCustomNode w d h q s) \<noteq> Some (AssertFailed m)"
  shows "fst (writeCustomNode w (Suc d) h q s) \<noteq> Some (AssertFailed m)"
proof (cases "customNode h q")
  case None
  then show ?thesis by (simp add: writeCustomNode_BadPointer)
next
  case (Some cn)
  show ?thesis
  proof (cases "isProxyObject cn")
    case True
    show ?thesis by (simp only: writeCustomNode_proxy [OF Some True]) (rule e)
  next
    case False
    show ?thesis
      by (simp only: writeCustomNode_plain [OF Some False])
        (rule andThen_no_fault, rule forEach_no_fault, rule c, simp)
  qed
qed

lemma no_abort:
  assumes "refTargetsAssigned h"
  shows "(\<forall>p s. fst (writeElement w d h p s) \<noteq> Some (AssertFailed m)) \<and>
         (\<forall>q s. fst (writeCustomNode w d h q s) \<noteq> Some (AssertFailed m))"
proof (induction d)
  case 0
  show ?case by (simp add: writeElement.simps writeCustomNode.simps)
next
  case (Suc d)
  then show ?case
    using writeElement_no_abort_Suc [OF assms, of w d m] writeCustomNode_no_abort_Suc [of w d h m]
    by blast
qed

lemma returned_no_abort:
  assumes "refTargetsAssigned h"
  shows "returned (writeElement w d h p) \<noteq> Some (AssertFailed m)"
    and "returned (writeCustomNode w d h q) \<noteq> Some (AssertFailed m)"
  using no_abort [OF assms, of w d m] by (simp_all add: returned_def)

lemma ex_store_assigned: "refTargetsAssigned ex_store"
  unfolding refTargetsAssigned_def
  by (auto simp: ex_defs split: if_splits)

text \<open>
  C8. When a node's \<^verbatim>\<open>mRefToNode\<close> is set and the target's id is 0, \<^verbatim>\<open>writeElement\<close> stops at
  the assertion after the header and the node's own id: the 0 is not issued. In a store
  where every reference target has a nonzero id, the id issued for an alias is nonzero
  and no call of an encoder or of \<^verbatim>\<open>write\<close>, at any depth and from any node, ends in the
  assertion.
\<close>

theorem writeElement_reference_id_assigned:
  assumes "writeNode h p = Some n" and "mRefToNode n = Some t" and "writeNode h t = Some target"
  shows "(mRefId target = 0 \<longrightarrow>
            writeElement w (Suc d) h p s =
              (Some (AssertFailed ''Taml: Invalid reference to Id.''),
               puts [WriteString (getClassName n),
                     WriteString (case mpObjectName n of Some nm \<Rightarrow> nm | None \<Rightarrow> []),
                     WriteU32 (mRefId n)] s))
       \<and> (refTargetsAssigned h \<longrightarrow>
            mRefId target \<noteq> 0
          \<and> writeElement w (Suc d) h p s =
              (None,
               puts [WriteString (getClassName n),
                     WriteString (case mpObjectName n of Some nm \<Rightarrow> nm | None \<Rightarrow> []),
                     WriteU32 (mRefId n), WriteU32 (mRefId target)] s)
          \<and> (\<forall>d' p' q' m. returned (writeElement w d' h p') \<noteq> Some (AssertFailed m)
                         \<and> returned (writeCustomNode w d' h q') \<noteq> Some (AssertFailed m))
          \<and> (\<forall>d' fs p' c m.
                fst (TamlBinaryWriter_write w d' h fs p' c) \<noteq> Inl (AssertFailed m)))"
proof (intro conjI impI)
  assume "mRefId target = 0"
  then show "writeElement w (Suc d) h p s =
              (Some (AssertFailed ''Taml: Invalid reference to Id.''),
               puts [WriteString (getClassName n),
                     WriteString (case mpObjectName n of Some nm \<Rightarrow> nm | None \<Rightarrow> []),
                     WriteU32 (mRefId n)] s)"
    by (simp add: writeElement_alias [OF assms] AssertFatal_def Header_def)
next
  assume a: "refTargetsAssigned h"
  then show nz: "mRefId target \<noteq> 0"
    using assms unfolding refTargetsAssigned_def by blast
  then show "writeElement w (Suc d) h p s =
              (None,
               puts [WriteString (getClassName n),
                     WriteString (case mpObjectName n of Some nm \<Rightarrow> nm | None \<Rightarrow> []),
                     WriteU32 (mRefId n), WriteU32 (mRefId target)] s)"
    by (simp add: writeElement_alias [OF assms] AssertFatal_def Header_def)
  show "\<forall>d' p' q' m. returned (writeElement w d' h p') \<noteq> Some (AssertFailed m)
                         \<and> returned (writeCustomNode w d' h q') \<noteq> Some (AssertFailed m)"
    using returned_no_abort [OF a] by blast
  show "\<forall>d' fs p' c m. fst (TamlBinaryWriter_write w d' h fs p' c) \<noteq> Inl (AssertFailed m)"
  proof (intro allI)
    fix d' fs p' c m
    have "returned (writeElement w d' h p') \<noteq> Some (AssertFailed m)"
      by (rule returned_no_abort [OF a])
    then show "fst (TamlBinaryWriter_write w d' h fs p' c) \<noteq> Inl (AssertFailed m)"
      by (cases c) (auto simp: write_plain write_compressed split: option.splits)
  qed
qed


theorem writeElement_reference_id_assigned_witness:
  "writeNode ex_unassigned 2 = Some (ex_alias\<lparr>mRefToNode := Some 1\<rparr>) \<and>
   mRefToNode (ex_alias\<lparr>mRefToNode := Some 1\<rparr>) = Some 1 \<and>
   writeNode ex_unassigned 1 = Some ex_image \<and> mRefId ex_image = 0 \<and>
   writeElement ex_writer (Suc 0) ex_unassigned 2 (File ex_file) =
     (Some (AssertFailed ''Taml: Invalid reference to Id.''),
      File \<lparr>fs_status = Ok, fs_contents =
        [Plain (WriteString ''Sprite''), Plain (WriteString []), Plain (WriteU32 0)]\<rparr>) \<and>
   writeNode ex_store 3 = Some ex_alias \<and> mRefToNode ex_alias = Some 2 \<and>
   writeNode ex_store 2 = Some ex_sprite \<and> refTargetsAssigned ex_store \<and>
   writeElement ex_writer (Suc 0) ex_store 3 (File ex_file) =
     (None, File \<lparr>fs_status = Ok, fs_contents =
        [Plain (WriteString ''Sprite''), Plain (WriteString []), Plain (WriteU32 0),
         Plain (WriteU32 7)]\<rparr>) \<and>
   (\<forall>d p q m. returned (writeElement ex_writer d ex_store p) \<noteq> Some (AssertFailed m)
             \<and> returned (writeCustomNode ex_writer d ex_store q) \<noteq> Some (AssertFailed m))"
proof -
  have u: "writeNode ex_unassigned 2 = Some (ex_alias\<lparr>mRefToNode := Some 1\<rparr>)"
    "mRefToNode (ex_alias\<lparr>mRefToNode := Some 1\<rparr>) = Some 1"
    "writeNode ex_unassigned 1 = Some ex_image"
    by (simp_all add: ex_unassigned_def)
  have z: "mRefId ex_image = 0" by (simp add: ex_image_def)
  have a: "writeNode ex_store 3 = Some ex_alias" "mRefToNode ex_alias = Some 2"
    "writeNode ex_store 2 = Some ex_sprite"
    by (simp_all add: ex_store_def ex_alias_def)
  note bad = conjunct1 [OF writeElement_reference_id_assigned [OF u, of ex_writer 0 "File ex_file"],
      THEN mp, OF z]
  note good = conjunct2 [OF writeElement_reference_id_assigned [OF a, of ex_writer 0 "File ex_file"],
      THEN mp, OF ex_store_assigned]
  from bad have 1: "writeElement ex_writer (Suc 0) ex_unassigned 2 (File ex_file) =
     (Some (AssertFailed ''Taml: Invalid reference to Id.''),
      File \<lparr>fs_status = Ok, fs_contents =
        [Plain (WriteString ''Sprite''), Plain (WriteString []), Plain (WriteU32 0)]\<rparr>)"
    by (simp add: puts_File_Ok ex_file_def ex_alias_def)
  from good have 2: "writeElement ex_writer (Suc 0) ex_store 3 (File ex_file) =
     (None, File \<lparr>fs_status = Ok, fs_contents =
        [Plain (WriteString ''Sprite''), Plain (WriteString []), Plain (WriteU32 0),
         Plain (WriteU32 7)]\<rparr>)"
    by (simp add: puts_File_Ok ex_file_def ex_alias_def ex_sprite_def)
  from good have 3: "\<forall>d p q m.
      returned (writeElement ex_writer d ex_store p) \<noteq> Some (AssertFailed m)
    \<and> returned (writeCustomNode ex_writer d ex_store q) \<noteq> Some (AssertFailed m)"
    by blast
  from u z 1 a ex_store_assigned 2 3 show ?thesis by (intro conjI)
qed


subsection \<open>Termination\<close>

lemma forEach_cong_set:
  assumes "\<And>x t. x \<in> set xs \<Longrightarrow> f x t = g x t"
  shows "forEach f xs s = forEach g xs s"
  using assms by (induction xs arbitrary: s) (simp_all split: prod.splits option.splits)

lemma descends_child:
  "descends h he hc \<Longrightarrow> writeNode h p = Some n \<Longrightarrow> mRefToNode n = None \<Longrightarrow>
   c \<in> set (childrenOf n) \<Longrightarrow> he c < he p"
  unfolding descends_def by blast

lemma descends_custom:
  "descends h he hc \<Longrightarrow> writeNode h p = Some n \<Longrightarrow> mRefToNode n = None \<Longrightarrow>
   q \<in> set (mCustomNodes n) \<Longrightarrow> hc q < he p"
  unfolding descends_def by blast

lemma descends_proxy:
  "descends h he hc \<Longrightarrow> customNode h q = Some c \<Longrightarrow> isProxyObject c \<Longrightarrow>
   he (getProxyWriteNode c) < hc q"
  unfolding descends_def by (auto split: if_splits)

lemma descends_custom_child:
  "descends h he hc \<Longrightarrow> customNode h q = Some c \<Longrightarrow> \<not> isProxyObject c \<Longrightarrow>
   k \<in> set (getChildren c) \<Longrightarrow> hc k < hc q"
  unfolding descends_def by (auto split: if_splits)

lemma writeChildren_deep_enough:
  assumes "\<And>c t. c \<in> set (childrenOf n) \<Longrightarrow>
      fst (writeElement w d h c t) \<noteq> Some DepthExhausted \<and>
      writeElement w (Suc d) h c t = writeElement w d h c t"
  shows "fst (writeChildren w d h n s) \<noteq> Some DepthExhausted"
    and "writeChildren w (Suc d) h n s = writeChildren w d h n s"
proof -
  show "fst (writeChildren w d h n s) \<noteq> Some DepthExhausted"
    by (simp only: writeChildren_forEach) (rule forEach_no_fault, simp add: assms)
  show "writeChildren w (Suc d) h n s = writeChildren w d h n s"
    by (simp only: writeChildren_forEach) (rule forEach_cong_set, simp add: assms)
qed

lemma writeCustomElements_deep_enough:
  assumes "\<And>q t. q \<in> set (mCustomNodes n) \<Longrightarrow>
      fst (writeCustomNode w d h q t) \<noteq> Some DepthExhausted \<and>
      writeCustomNode w (Suc d) h q t = writeCustomNode w d h q t"
  shows "fst (writeCustomElements w d h n s) \<noteq> Some DepthExhausted"
    and "writeCustomElements w (Suc d) h n s = writeCustomElements w d h n s"
proof -
  show "fst (writeCustomElements w d h n s) \<noteq> Some DepthExhausted"
    by (simp only: writeCustomElements_forEach) (rule forEach_no_fault, simp add: assms)
  show "writeCustomElements w (Suc d) h n s = writeCustomElements w d h n s"
    by (simp only: writeCustomElements_forEach) (rule forEach_cong_set, simp add: assms)
qed

lemma writeElement_deep_enough_Suc:
  assumes D: "descends h he hc"
    and e: "\<And>p s. he p < d \<Longrightarrow>
      fst (writeElement w d h p s) \<noteq> Some DepthExhausted \<and>
      writeElement w (Suc d) h p s = writeElement w d h p s"
    and c: "\<And>q s. hc q < d \<Longrightarrow>
      fst (writeCustomNode w d h q s) \<noteq> Some DepthExhausted \<and>
      writeCustomNode w (Suc d) h q s = writeCustomNode w d h q s"
    and p: "he p < Suc d"
  shows "fst (writeElement w (Suc d) h p s) \<noteq> Some DepthExhausted \<and>
      writeElement w (Suc (Suc d)) h p s = writeElement w (Suc d) h p s"
proof (cases "writeNode h p")
  case None
  then show ?thesis by (simp add: writeElement_BadPointer)
next
  case (Some n)
  show ?thesis
  proof (cases "mRefToNode n")
    case None
    have ch: "fst (writeElement w d h c t) \<noteq> Some DepthExhausted \<and>
        writeElement w (Suc d) h c t = writeElement w d h c t"
      if "c \<in> set (childrenOf n)" for c t
      using descends_child [OF D Some None that] p by (intro e) simp
    have cu: "fst (writeCustomNode w d h q t) \<noteq> Some DepthExhausted \<and>
        writeCustomNode w (Suc d) h q t = writeCustomNode w d h q t"
      if "q \<in> set (mCustomNodes n)" for q t
      using descends_custom [OF D Some None that] p by (intro c) simp
    note C = writeChildren_deep_enough [of n w d h, OF ch]
    note U = writeCustomElements_deep_enough [of n w d h, OF cu]
    have 1: "writeChildren w (Suc d) h n = writeChildren w d h n"
      by (rule ext) (rule C(2))
    have 2: "writeCustomElements w (Suc d) h n = writeCustomElements w d h n"
      by (rule ext) (rule U(2))
    have "fst (andThen (writeChildren w d h n) (writeCustomElements w d h n) t)
        \<noteq> Some DepthExhausted" for t
      by (rule andThen_no_fault) (simp_all add: C(1) U(1))
    then show ?thesis
      by (simp add: writeElement_body [OF Some None] 1 2)
  next
    case t: (Some t)
    show ?thesis
    proof (cases "writeNode h t")
      case None
      show ?thesis by (simp add: writeElement_alias_BadPointer [OF Some t None])
    next
      case target: (Some target)
      show ?thesis by (simp add: writeElement_alias [OF Some t target] AssertFatal_def)
    qed
  qed
qed

lemma writeCustomNode_deep_enough_Suc:
  assumes D: "descends h he hc"
    and e: "\<And>p s. he p < d \<Longrightarrow>
      fst (writeElement w d h p s) \<noteq> Some DepthExhausted \<and>
      writeElement w (Suc d) h p s = writeElement w d h p s"
    and c: "\<And>q s. hc q < d \<Longrightarrow>
      fst (writeCustomNode w d h q s) \<noteq> Some DepthExhausted \<and>
      writeCustomNode w (Suc d) h q s = writeCustomNode w d h q s"
    and q: "hc q < Suc d"
  shows "fst (writeCustomNode w (Suc d) h q s) \<noteq> Some DepthExhausted \<and>
      writeCustomNode w (Suc (Suc d)) h q s = writeCustomNode w (Suc d) h q s"
proof (cases "customNode h q")
  case None
  then show ?thesis by (simp add: writeCustomNode_BadPointer)
next
  case (Some cn)
  show ?thesis
  proof (cases "isProxyObject cn")
    case True
    have "he (getProxyWriteNode cn) < d"
      using descends_proxy [OF D Some True] q by simp
    then show ?thesis
      by (simp add: writeCustomNode_proxy [OF Some True] e)
  next
    case False
    let ?ks = "if (0 :: U32) < of_nat (length (getChildren cn)) then getChildren cn else []"
    have k: "fst (writeCustomNode w d h k t) \<noteq> Some DepthExhausted \<and>
        writeCustomNode w (Suc d) h k t = writeCustomNode w d h k t"
      if "k \<in> set ?ks" for k t
    proof -
      from that have "k \<in> set (getChildren cn)" by (simp split: if_splits)
      from descends_custom_child [OF D Some False this] q show ?thesis
        by (intro c) simp
    qed
    have 1: "forEach (writeCustomNode w (Suc d) h) ?ks = forEach (writeCustomNode w d h) ?ks"
      by (rule ext) (rule forEach_cong_set, simp add: k)
    have "fst (forEach (writeCustomNode w d h) ?ks t) \<noteq> Some DepthExhausted" for t
      by (rule forEach_no_fault) (simp add: k)
    then have "fst (andThen (forEach (writeCustomNode w d h) ?ks)
        (\<lambda>t. (None, puts xs t)) t) \<noteq> Some DepthExhausted" for t xs
      by (intro andThen_no_fault) simp_all
    then show ?thesis
      by (simp only: writeCustomNode_plain [OF Some False] 1) simp
  qed
qed

lemma deep_enough_step:
  assumes "descends h he hc"
  shows "(\<forall>p s. he p < d \<longrightarrow>
            fst (writeElement w d h p s) \<noteq> Some DepthExhausted \<and>
            writeElement w (Suc d) h p s = writeElement w d h p s) \<and>
         (\<forall>q s. hc q < d \<longrightarrow>
            fst (writeCustomNode w d h q s) \<noteq> Some DepthExhausted \<and>
            writeCustomNode w (Suc d) h q s = writeCustomNode w d h q s)"
proof (induction d)
  case 0
  show ?case by simp
next
  case (Suc d)
  show ?case
  proof (intro conjI allI impI)
    fix p s assume "he p < Suc d"
    from writeElement_deep_enough_Suc [OF assms _ _ this, of w s] Suc
    show "fst (writeElement w (Suc d) h p s) \<noteq> Some DepthExhausted"
      and "writeElement w (Suc (Suc d)) h p s = writeElement w (Suc d) h p s"
      by blast+
  next
    fix q s assume "hc q < Suc d"
    from writeCustomNode_deep_enough_Suc [OF assms _ _ this, of w s] Suc
    show "fst (writeCustomNode w (Suc d) h q s) \<noteq> Some DepthExhausted"
      and "writeCustomNode w (Suc (Suc d)) h q s = writeCustomNode w (Suc d) h q s"
      by blast+
  qed
qed


lemma writeElement_stable:
  assumes "descends h he hc" and "he p < d"
  shows "writeElement w d h p s = writeElement w (Suc (he p)) h p s"
  using assms(2)
proof (induction d)
  case 0
  then show ?case by simp
next
  case (Suc d)
  show ?case
  proof (cases "he p < d")
    case True
    with deep_enough_step [OF assms(1), of d w] Suc.IH show ?thesis by simp
  next
    case False
    with Suc.prems have "d = he p" by simp
    then show ?thesis by simp
  qed
qed

lemma writeCustomNode_stable:
  assumes "descends h he hc" and "hc q < d"
  shows "writeCustomNode w d h q s = writeCustomNode w (Suc (hc q)) h q s"
  using assms(2)
proof (induction d)
  case 0
  then show ?case by simp
next
  case (Suc d)
  show ?case
  proof (cases "hc q < d")
    case True
    with deep_enough_step [OF assms(1), of d w] Suc.IH show ?thesis by simp
  next
    case False
    with Suc.prems have "d = hc q" by simp
    then show ?thesis by simp
  qed
qed

lemma writeElement_alias_depth:
  assumes "writeNode h p = Some n" and "mRefToNode n \<noteq> None"
  shows "fst (writeElement w (Suc d) h p s) \<noteq> Some DepthExhausted"
    and "writeElement w (Suc d) h p s = writeElement w (Suc 0) h p s"
proof -
  from assms(2) obtain t where t: "mRefToNode n = Some t" by blast
  show "fst (writeElement w (Suc d) h p s) \<noteq> Some DepthExhausted"
    by (cases "writeNode h t")
      (simp_all add: writeElement_alias_BadPointer [OF assms(1) t]
        writeElement_alias [OF assms(1) t] AssertFatal_def)
  show "writeElement w (Suc d) h p s = writeElement w (Suc 0) h p s"
    by (cases "writeNode h t")
      (simp_all add: writeElement_alias_BadPointer [OF assms(1) t]
        writeElement_alias [OF assms(1) t])
qed

lemma ex_store_descends: "descends ex_store ex_he ex_hc"
  unfolding descends_def
  by (auto simp: ex_defs ex_he_def ex_hc_def childrenOf_def split: if_splits)

lemma encoders_deep_enough:
  assumes "descends h he hc"
  shows "(he p < d \<longrightarrow>
            fst (writeElement w d h p s) \<noteq> Some DepthExhausted \<and>
            writeElement w d h p s = writeElement w (Suc (he p)) h p s)
       \<and> (hc q < d \<longrightarrow>
            fst (writeCustomNode w d h q s) \<noteq> Some DepthExhausted \<and>
            writeCustomNode w d h q s = writeCustomNode w (Suc (hc q)) h q s)
       \<and> (writeNode h p = Some n \<and> mRefToNode n = None \<and> he p \<le> d \<longrightarrow>
            fst (writeChildren w d h n s) \<noteq> Some DepthExhausted \<and>
            fst (writeCustomElements w d h n s) \<noteq> Some DepthExhausted)
       \<and> (writeNode h p = Some n \<and> mRefToNode n \<noteq> None \<longrightarrow>
            fst (writeElement w (Suc d) h p s) \<noteq> Some DepthExhausted \<and>
            writeElement w (Suc d) h p s = writeElement w (Suc 0) h p s)"
proof (intro conjI impI)
  assume "he p < d"
  then show "fst (writeElement w d h p s) \<noteq> Some DepthExhausted"
    using deep_enough_step [OF assms, of d w] by blast
  show "writeElement w d h p s = writeElement w (Suc (he p)) h p s"
    by (rule writeElement_stable [OF assms \<open>he p < d\<close>])
next
  assume "hc q < d"
  then show "fst (writeCustomNode w d h q s) \<noteq> Some DepthExhausted"
    using deep_enough_step [OF assms, of d w] by blast
  show "writeCustomNode w d h q s = writeCustomNode w (Suc (hc q)) h q s"
    by (rule writeCustomNode_stable [OF assms \<open>hc q < d\<close>])
next
  assume a: "writeNode h p = Some n \<and> mRefToNode n = None \<and> he p \<le> d"
  have ch: "fst (writeElement w d h c t) \<noteq> Some DepthExhausted \<and>
      writeElement w (Suc d) h c t = writeElement w d h c t"
    if "c \<in> set (childrenOf n)" for c t
  proof -
    have "he c < d" using descends_child [OF assms _ _ that, of p] a by simp
    then show ?thesis using deep_enough_step [OF assms, of d w] by blast
  qed
  have cu: "fst (writeCustomNode w d h k t) \<noteq> Some DepthExhausted \<and>
      writeCustomNode w (Suc d) h k t = writeCustomNode w d h k t"
    if "k \<in> set (mCustomNodes n)" for k t
  proof -
    have "hc k < d" using descends_custom [OF assms _ _ that, of p] a by simp
    then show ?thesis using deep_enough_step [OF assms, of d w] by blast
  qed
  show "fst (writeChildren w d h n s) \<noteq> Some DepthExhausted"
    by (rule writeChildren_deep_enough(1) [of n w d h, OF ch])
  show "fst (writeCustomElements w d h n s) \<noteq> Some DepthExhausted"
    by (rule writeCustomElements_deep_enough(1) [of n w d h, OF cu])
next
  assume a: "writeNode h p = Some n \<and> mRefToNode n \<noteq> None"
  then show "fst (writeElement w (Suc d) h p s) \<noteq> Some DepthExhausted"
    by (intro writeElement_alias_depth(1) [of h p n]) simp_all
  from a show "writeElement w (Suc d) h p s = writeElement w (Suc 0) h p s"
    by (intro writeElement_alias_depth(2) [of h p n]) simp_all
qed

lemma ex_store_deep_enough:
  "descends ex_store ex_he ex_hc \<and>
   ex_he 1 < 5 \<and>
   fst (writeElement ex_writer 5 ex_store 1 (File ex_file)) \<noteq> Some DepthExhausted \<and>
   writeElement ex_writer 5 ex_store 1 (File ex_file) =
     writeElement ex_writer (Suc (ex_he 1)) ex_store 1 (File ex_file) \<and>
   ex_hc 10 < 5 \<and>
   fst (writeCustomNode ex_writer 5 ex_store 10 (File ex_file)) \<noteq> Some DepthExhausted \<and>
   writeCustomNode ex_writer 5 ex_store 10 (File ex_file) =
     writeCustomNode ex_writer (Suc (ex_hc 10)) ex_store 10 (File ex_file) \<and>
   writeNode ex_store 1 = Some ex_scene \<and> mRefToNode ex_scene = None \<and> ex_he 1 \<le> 5 \<and>
   fst (writeChildren ex_writer 5 ex_store ex_scene (File ex_file)) \<noteq> Some DepthExhausted \<and>
   fst (writeCustomElements ex_writer 5 ex_store ex_scene (File ex_file)) \<noteq> Some DepthExhausted \<and>
   writeNode ex_store 3 = Some ex_alias \<and> mRefToNode ex_alias \<noteq> None \<and>
   fst (writeElement ex_writer (Suc 5) ex_store 3 (File ex_file)) \<noteq> Some DepthExhausted \<and>
   writeElement ex_writer (Suc 5) ex_store 3 (File ex_file) =
     writeElement ex_writer (Suc 0) ex_store 3 (File ex_file)"
proof -
  have h: "ex_he 1 < 5" "ex_hc 10 < 5" "ex_he 1 \<le> 5"
    by (simp_all add: ex_he_def ex_hc_def)
  have s: "writeNode ex_store 1 = Some ex_scene" "mRefToNode ex_scene = None"
    by (simp_all add: ex_store_def ex_scene_def)
  have a: "writeNode ex_store 3 = Some ex_alias" "mRefToNode ex_alias \<noteq> None"
    by (simp_all add: ex_store_def ex_alias_def)
  note t = encoders_deep_enough [OF ex_store_descends, of 1 5 ex_writer "File ex_file" 10 ex_scene]
  note u = encoders_deep_enough [OF ex_store_descends, of 3 5 ex_writer "File ex_file" 10 ex_alias]
  from t h s u a ex_store_descends show ?thesis by blast
qed


lemma forEach_all_None:
  assumes "\<And>x t. x \<in> set xs \<Longrightarrow> fst (f x t) = None"
  shows "fst (forEach f xs s) = None"
  using assms
proof (induction xs arbitrary: s)
  case Nil
  show ?case by simp
next
  case (Cons x xs)
  obtain r s' where fx: "f x s = (r, s')" by (cases "f x s")
  have "r = None" using Cons.prems [of x s] fx by simp
  moreover have "fst (forEach f xs s') = None"
    by (rule Cons.IH) (simp add: Cons.prems)
  ultimately show ?case by (simp add: fx)
qed

lemma andThen_None:
  assumes "\<And>t. fst (f t) = None" and "\<And>t. fst (g t) = None"
  shows "fst (andThen f g s) = None"
proof -
  obtain r s' where fs: "f s = (r, s')" by (cases "f s")
  have "r = None" using assms(1) [of s] fs by simp
  then show ?thesis using assms(2) by (simp add: andThen_def fs)
qed

lemma closed_target:
  "closed h \<Longrightarrow> writeNode h p = Some n \<Longrightarrow> mRefToNode n = Some t \<Longrightarrow> writeNode h t \<noteq> None"
  unfolding closed_def by blast

lemma closed_child:
  "closed h \<Longrightarrow> writeNode h p = Some n \<Longrightarrow> mRefToNode n = None \<Longrightarrow>
   c \<in> set (childrenOf n) \<Longrightarrow> writeNode h c \<noteq> None"
  unfolding closed_def by blast

lemma closed_custom:
  "closed h \<Longrightarrow> writeNode h p = Some n \<Longrightarrow> mRefToNode n = None \<Longrightarrow>
   q \<in> set (mCustomNodes n) \<Longrightarrow> customNode h q \<noteq> None"
  unfolding closed_def by blast

lemma closed_proxy:
  "closed h \<Longrightarrow> customNode h q = Some c \<Longrightarrow> isProxyObject c \<Longrightarrow>
   writeNode h (getProxyWriteNode c) \<noteq> None"
  unfolding closed_def by blast

lemma closed_custom_child:
  "closed h \<Longrightarrow> customNode h q = Some c \<Longrightarrow> \<not> isProxyObject c \<Longrightarrow>
   k \<in> set (getChildren c) \<Longrightarrow> customNode h k \<noteq> None"
  unfolding closed_def by blast

lemma writeElement_returns_Suc:
  assumes D: "descends h he hc" and C: "closed h" and A: "refTargetsAssigned h"
    and e: "\<And>p s. he p < d \<Longrightarrow> writeNode h p \<noteq> None \<Longrightarrow> fst (writeElement w d h p s) = None"
    and c: "\<And>q s. hc q < d \<Longrightarrow> customNode h q \<noteq> None \<Longrightarrow> fst (writeCustomNode w d h q s) = None"
    and p: "he p < Suc d" and n: "writeNode h p = Some n"
  shows "fst (writeElement w (Suc d) h p s) = None"
proof (cases "mRefToNode n")
  case None
  have "fst (writeChildren w d h n t) = None" for t
  proof (simp only: writeChildren_forEach, rule forEach_all_None)
    fix x t' assume x: "x \<in> set (childrenOf n)"
    from descends_child [OF D n None x] p have "he x < d" by simp
    then show "fst (writeElement w d h x t') = None"
      by (rule e) (rule closed_child [OF C n None x])
  qed
  moreover have "fst (writeCustomElements w d h n t) = None" for t
  proof (simp only: writeCustomElements_forEach, rule forEach_all_None)
    fix x t' assume x: "x \<in> set (mCustomNodes n)"
    from descends_custom [OF D n None x] p have "hc x < d" by simp
    then show "fst (writeCustomNode w d h x t') = None"
      by (rule c) (rule closed_custom [OF C n None x])
  qed
  ultimately show ?thesis
    by (simp only: writeElement_body [OF n None]) (rule andThen_None)
next
  case (Some t)
  from closed_target [OF C n Some] obtain target where t: "writeNode h t = Some target"
    by blast
  have "mRefId target \<noteq> 0"
    using A n Some t unfolding refTargetsAssigned_def by blast
  then show ?thesis
    by (simp add: writeElement_alias [OF n Some t] AssertFatal_def)
qed

lemma writeCustomNode_returns_Suc:
  assumes D: "descends h he hc" and C: "closed h"
    and e: "\<And>p s. he p < d \<Longrightarrow> writeNode h p \<noteq> None \<Longrightarrow> fst (writeElement w d h p s) = None"
    and c: "\<And>q s. hc q < d \<Longrightarrow> customNode h q \<noteq> None \<Longrightarrow> fst (writeCustomNode w d h q s) = None"
    and q: "hc q < Suc d" and cn: "customNode h q = Some cn"
  shows "fst (writeCustomNode w (Suc d) h q s) = None"
proof (cases "isProxyObject cn")
  case True
  from descends_proxy [OF D cn True] q have "he (getProxyWriteNode cn) < d" by simp
  then show ?thesis
    by (simp only: writeCustomNode_proxy [OF cn True])
      (rule e, assumption, rule closed_proxy [OF C cn True])
next
  case False
  let ?ks = "if (0 :: U32) < of_nat (length (getChildren cn)) then getChildren cn else []"
  have "fst (forEach (writeCustomNode w d h) ?ks t) = None" for t
  proof (rule forEach_all_None)
    fix k t' assume "k \<in> set ?ks"
    then have k: "k \<in> set (getChildren cn)" by (simp split: if_splits)
    from descends_custom_child [OF D cn False k] q have "hc k < d" by simp
    then show "fst (writeCustomNode w d h k t') = None"
      by (rule c) (rule closed_custom_child [OF C cn False k])
  qed
  then have "fst (andThen (forEach (writeCustomNode w d h) ?ks)
      (\<lambda>t. (None, puts xs t)) t) = None" for t xs
    by (intro andThen_None) simp_all
  then show ?thesis
    by (simp only: writeCustomNode_plain [OF cn False])
qed

lemma encoders_return_step:
  assumes "descends h he hc" and "closed h" and "refTargetsAssigned h"
  shows "(\<forall>p s. he p < d \<and> writeNode h p \<noteq> None \<longrightarrow> fst (writeElement w d h p s) = None) \<and>
         (\<forall>q s. hc q < d \<and> customNode h q \<noteq> None \<longrightarrow> fst (writeCustomNode w d h q s) = None)"
proof (induction d)
  case 0
  show ?case by simp
next
  case (Suc d)
  show ?case
  proof (intro conjI allI impI)
    fix p s assume a: "he p < Suc d \<and> writeNode h p \<noteq> None"
    then obtain n where n: "writeNode h p = Some n" by blast
    from a have p: "he p < Suc d" by simp
    show "fst (writeElement w (Suc d) h p s) = None"
      using Suc by (intro writeElement_returns_Suc [OF assms _ _ p n]) blast+
  next
    fix q s assume a: "hc q < Suc d \<and> customNode h q \<noteq> None"
    then obtain cn where cn: "customNode h q = Some cn" by blast
    from a have q: "hc q < Suc d" by simp
    show "fst (writeCustomNode w (Suc d) h q s) = None"
      using Suc by (intro writeCustomNode_returns_Suc [OF assms(1,2) _ _ q cn]) blast+
  qed
qed

lemma ex_store_closed: "closed ex_store"
  unfolding closed_def
  by (auto simp: ex_defs childrenOf_def split: if_splits)

lemma wf_height:
  assumes "wf r" and fin: "\<And>x. finite {y. (y, x) \<in> r}"
  shows "\<exists>f :: 'a \<Rightarrow> nat. \<forall>x y. (y, x) \<in> r \<longrightarrow> f y < f x"
proof -
  define F :: "('a \<Rightarrow> nat) \<Rightarrow> 'a \<Rightarrow> nat"
    where "F g x = Suc (Max (insert 0 (g ` {y. (y, x) \<in> r})))" for g x
  define f where "f = wfrec r F"
  have eq: "f x = F (cut f r x) x" for x
    by (simp add: f_def wfrec [OF assms(1)])
  have "f y < f x" if "(y, x) \<in> r" for x y
  proof -
    have "cut f r x y = f y" using that by (rule cut_apply)
    then have "f y \<in> insert 0 (cut f r x ` {y. (y, x) \<in> r})"
      using that by (metis (mono_tags, lifting) image_eqI insertI2 mem_Collect_eq)
    moreover have "finite (insert 0 (cut f r x ` {y. (y, x) \<in> r}))"
      using fin by simp
    ultimately have "f y \<le> Max (insert 0 (cut f r x ` {y. (y, x) \<in> r}))"
      by (rule Max_ge [rotated])
    then show ?thesis by (simp add: eq [of x] F_def)
  qed
  then show ?thesis by blast
qed

lemma owns_finite: "finite {y. (y, x) \<in> owns h}"
proof (cases x)
  case (WriteNodeAt p)
  show ?thesis
  proof (cases "writeNode h p")
    case None
    then have "{y. (y, x) \<in> owns h} = {}"
      using WriteNodeAt by (auto elim: owns.cases)
    then show ?thesis by simp
  next
    case (Some n)
    have "{y. (y, x) \<in> owns h} \<subseteq>
        WriteNodeAt ` set (childrenOf n) \<union> CustomNodeAt ` set (mCustomNodes n)"
      using WriteNodeAt Some by (auto elim!: owns.cases)
    then show ?thesis by (rule finite_subset) simp
  qed
next
  case (CustomNodeAt q)
  show ?thesis
  proof (cases "customNode h q")
    case None
    then have "{y. (y, x) \<in> owns h} = {}"
      using CustomNodeAt by (auto elim: owns.cases)
    then show ?thesis by simp
  next
    case (Some c)
    have "{y. (y, x) \<in> owns h} \<subseteq>
        insert (WriteNodeAt (getProxyWriteNode c)) (CustomNodeAt ` set (getChildren c))"
      using CustomNodeAt Some by (auto elim!: owns.cases)
    then show ?thesis by (rule finite_subset) simp
  qed
qed

lemma wf_owns_descends:
  assumes "wf (owns h)"
  shows "\<exists>he hc. descends h he hc"
proof -
  from wf_height [OF assms owns_finite]
  obtain f :: "Obj \<Rightarrow> nat" where f: "\<And>x y. (y, x) \<in> owns h \<Longrightarrow> f y < f x"
    by blast
  have "descends h (\<lambda>p. f (WriteNodeAt p)) (\<lambda>q. f (CustomNodeAt q))"
    unfolding descends_def
    by (auto intro!: f owns.intros)
  then show ?thesis by blast
qed

lemma descends_wf_owns:
  assumes "descends h he hc"
  shows "wf (owns h)"
proof (rule wf_subset)
  show "wf (measure (\<lambda>x. case x of WriteNodeAt p \<Rightarrow> he p | CustomNodeAt q \<Rightarrow> hc q))"
    by simp
  show "owns h \<subseteq> measure (\<lambda>x. case x of WriteNodeAt p \<Rightarrow> he p | CustomNodeAt q \<Rightarrow> hc q)"
    using assms
    by (auto elim!: owns.cases
        simp: descends_child descends_custom descends_proxy descends_custom_child)
qed

text \<open>
  C10. In a store whose ownership relation is well-founded (a finite, acyclic structure
  of children, custom nodes and proxy-wrapped nodes), the four encoders terminate: each
  call has a depth \<open>k\<close> that its recursion never exceeds, so that every depth bound above
  \<open>k\<close> gives the same outcome and never runs out. A node that is an alias is done at depth
  one, whatever its target and its own containers hold: its target is not entered. When
  moreover no pointer dangles and every reference target has its id, the calls return
  normally, and \<^verbatim>\<open>write\<close> returns \<^verbatim>\<open>true\<close>.
\<close>

theorem encoders_terminate:
  assumes "wf (owns h)"
  shows "(\<exists>k. \<forall>d s. k < d \<longrightarrow>
            fst (writeElement w d h p s) \<noteq> Some DepthExhausted \<and>
            writeElement w d h p s = writeElement w (Suc k) h p s)
       \<and> (\<exists>k. \<forall>d s. k < d \<longrightarrow>
            fst (writeCustomNode w d h q s) \<noteq> Some DepthExhausted \<and>
            writeCustomNode w d h q s = writeCustomNode w (Suc k) h q s)
       \<and> (writeNode h p = Some n \<and> mRefToNode n = None \<longrightarrow>
            (\<exists>k. \<forall>d s. k \<le> d \<longrightarrow>
               fst (writeChildren w d h n s) \<noteq> Some DepthExhausted \<and>
               fst (writeCustomElements w d h n s) \<noteq> Some DepthExhausted))
       \<and> (writeNode h p = Some n \<and> mRefToNode n \<noteq> None \<longrightarrow>
            (\<forall>d s. fst (writeElement w (Suc d) h p s) \<noteq> Some DepthExhausted \<and>
                   writeElement w (Suc d) h p s = writeElement w (Suc 0) h p s))
       \<and> (closed h \<and> refTargetsAssigned h \<and> writeNode h p \<noteq> None \<longrightarrow>
            (\<exists>k. \<forall>d s fs c. k < d \<longrightarrow>
               fst (writeElement w d h p s) = None \<and>
               fst (TamlBinaryWriter_write w d h fs p c) = Inr True))
       \<and> (closed h \<and> refTargetsAssigned h \<and> customNode h q \<noteq> None \<longrightarrow>
            (\<exists>k. \<forall>d s. k < d \<longrightarrow> fst (writeCustomNode w d h q s) = None))"
proof -
  from wf_owns_descends [OF assms] obtain he hc where D: "descends h he hc"
    by blast
  have R: "closed h \<and> refTargetsAssigned h \<and> writeNode h p \<noteq> None \<longrightarrow>
            (\<forall>d s fs c. he p < d \<longrightarrow>
               fst (writeElement w d h p s) = None \<and>
               fst (TamlBinaryWriter_write w d h fs p c) = Inr True)"
  proof (intro impI allI)
    fix d s fs c
    assume a: "closed h \<and> refTargetsAssigned h \<and> writeNode h p \<noteq> None" and d: "he p < d"
    have r: "fst (writeElement w d h p t) = None" for t
      using encoders_return_step [OF D, of d w] a d by blast
    then have "returned (writeElement w d h p) = None"
      by (simp add: returned_def)
    then have "fst (TamlBinaryWriter_write w d h fs p c) = Inr True"
      by (cases c) (simp_all add: write_plain write_compressed)
    with r show "fst (writeElement w d h p s) = None \<and>
        fst (TamlBinaryWriter_write w d h fs p c) = Inr True"
      by simp
  qed
  have Q: "closed h \<and> refTargetsAssigned h \<and> customNode h q \<noteq> None \<longrightarrow>
            (\<forall>d s. hc q < d \<longrightarrow> fst (writeCustomNode w d h q s) = None)"
    using encoders_return_step [OF D, of _ w] by blast
  note E = encoders_deep_enough [OF D, of p _ w _ q n]
  have "\<forall>d s. he p < d \<longrightarrow>
            fst (writeElement w d h p s) \<noteq> Some DepthExhausted \<and>
            writeElement w d h p s = writeElement w (Suc (he p)) h p s"
    using E by blast
  moreover have "\<forall>d s. hc q < d \<longrightarrow>
            fst (writeCustomNode w d h q s) \<noteq> Some DepthExhausted \<and>
            writeCustomNode w d h q s = writeCustomNode w (Suc (hc q)) h q s"
    using E by blast
  moreover have "writeNode h p = Some n \<and> mRefToNode n = None \<longrightarrow>
            (\<forall>d s. he p \<le> d \<longrightarrow>
               fst (writeChildren w d h n s) \<noteq> Some DepthExhausted \<and>
               fst (writeCustomElements w d h n s) \<noteq> Some DepthExhausted)"
    using E by blast
  moreover have "writeNode h p = Some n \<and> mRefToNode n \<noteq> None \<longrightarrow>
            (\<forall>d s. fst (writeElement w (Suc d) h p s) \<noteq> Some DepthExhausted \<and>
                   writeElement w (Suc d) h p s = writeElement w (Suc 0) h p s)"
    using E by blast
  moreover note R Q
  ultimately show ?thesis by blast
qed

theorem encoders_terminate_witness:
  "wf (owns ex_store) \<and>
   (\<exists>k. \<forall>d s. k < d \<longrightarrow>
      fst (writeElement ex_writer d ex_store 1 s) \<noteq> Some DepthExhausted \<and>
      writeElement ex_writer d ex_store 1 s = writeElement ex_writer (Suc k) ex_store 1 s) \<and>
   (\<exists>k. \<forall>d s. k < d \<longrightarrow>
      fst (writeCustomNode ex_writer d ex_store 10 s) \<noteq> Some DepthExhausted \<and>
      writeCustomNode ex_writer d ex_store 10 s = writeCustomNode ex_writer (Suc k) ex_store 10 s) \<and>
   writeNode ex_store 1 = Some ex_scene \<and> mRefToNode ex_scene = None \<and>
   (\<exists>k. \<forall>d s. k \<le> d \<longrightarrow>
      fst (writeChildren ex_writer d ex_store ex_scene s) \<noteq> Some DepthExhausted \<and>
      fst (writeCustomElements ex_writer d ex_store ex_scene s) \<noteq> Some DepthExhausted) \<and>
   writeNode ex_store 3 = Some ex_alias \<and> mRefToNode ex_alias \<noteq> None \<and>
   (\<forall>d s. fst (writeElement ex_writer (Suc d) ex_store 3 s) \<noteq> Some DepthExhausted \<and>
          writeElement ex_writer (Suc d) ex_store 3 s = writeElement ex_writer (Suc 0) ex_store 3 s) \<and>
   closed ex_store \<and> refTargetsAssigned ex_store \<and> writeNode ex_store 1 \<noteq> None \<and>
   (\<exists>k. \<forall>d s fs c. k < d \<longrightarrow>
      fst (writeElement ex_writer d ex_store 1 s) = None \<and>
      fst (TamlBinaryWriter_write ex_writer d ex_store fs 1 c) = Inr True) \<and>
   customNode ex_store 10 \<noteq> None \<and>
   (\<exists>k. \<forall>d s. k < d \<longrightarrow> fst (writeCustomNode ex_writer d ex_store 10 s) = None)"
proof -
  have wf: "wf (owns ex_store)"
    by (rule descends_wf_owns [OF ex_store_descends])
  have s: "writeNode ex_store 1 = Some ex_scene" "mRefToNode ex_scene = None"
    by (simp_all add: ex_store_def ex_scene_def)
  have a: "writeNode ex_store 3 = Some ex_alias" "mRefToNode ex_alias \<noteq> None"
    by (simp_all add: ex_store_def ex_alias_def)
  note t = encoders_terminate [OF wf, of ex_writer 1 10 ex_scene]
  note u = encoders_terminate [OF wf, of ex_writer 3 10 ex_alias]
  from t s have 1: "\<exists>k. \<forall>d s. k < d \<longrightarrow>
      fst (writeElement ex_writer d ex_store 1 s) \<noteq> Some DepthExhausted \<and>
      writeElement ex_writer d ex_store 1 s = writeElement ex_writer (Suc k) ex_store 1 s"
    and 2: "\<exists>k. \<forall>d s. k < d \<longrightarrow>
      fst (writeCustomNode ex_writer d ex_store 10 s) \<noteq> Some DepthExhausted \<and>
      writeCustomNode ex_writer d ex_store 10 s = writeCustomNode ex_writer (Suc k) ex_store 10 s"
    and 3: "\<exists>k. \<forall>d s. k \<le> d \<longrightarrow>
      fst (writeChildren ex_writer d ex_store ex_scene s) \<noteq> Some DepthExhausted \<and>
      fst (writeCustomElements ex_writer d ex_store ex_scene s) \<noteq> Some DepthExhausted"
    by blast+
  from u a have 4: "\<forall>d s. fst (writeElement ex_writer (Suc d) ex_store 3 s) \<noteq> Some DepthExhausted \<and>
          writeElement ex_writer (Suc d) ex_store 3 s = writeElement ex_writer (Suc 0) ex_store 3 s"
    by blast
  have n: "writeNode ex_store 1 \<noteq> None" "customNode ex_store 10 \<noteq> None"
    by (simp_all add: ex_store_def)
  from t ex_store_closed ex_store_assigned n
  have 5: "\<exists>k. \<forall>d s fs c. k < d \<longrightarrow>
      fst (writeElement ex_writer d ex_store 1 s) = None \<and>
      fst (TamlBinaryWriter_write ex_writer d ex_store fs 1 c) = Inr True"
    and 6: "\<exists>k. \<forall>d s. k < d \<longrightarrow> fst (writeCustomNode ex_writer d ex_store 10 s) = None"
    by blast+
  from wf 1 2 s 3 a 4 ex_store_closed ex_store_assigned n(1) 5 n(2) 6
  show ?thesis by (intro conjI)
qed


end
